theory Spec2Isabelle
  imports Main "HOL-Library.Multiset"
begin

section \<open>Go's time values, as the archiver uses them\<close>

text \<open>
  The archiver (package main, the file with \<open>compileMonitorData\<close>) parses every record's
  timestamp with \<open>time.Parse(time.RFC3339, ...)\<close> and then works on \<open>time.Time\<close> values
  with \<open>Before\<close>, \<open>After\<close>, \<open>Add\<close>, \<open>Round\<close> and \<open>Format\<close>.

  A \<open>time.Time\<close> is an instant together with a location. The instant is kept here as
  the number of nanoseconds since Go's zero time (January 1, year 1, 00:00:00 UTC), an
  unbounded \<open>int\<close>: Go stores whole seconds in an int64 and the nanoseconds apart, so no
  instant that RFC 3339 can write (years 0000 to 9999) comes near the bounds. The location
  is kept as the offset east of UTC in seconds; only \<open>Format\<close> reads it.
  A \<open>time.Duration\<close> is a number of nanoseconds.
\<close>

record Time =
  wall :: int
  loc :: int

type_synonym Duration = int

definition Nanosecond :: Duration where
  "Nanosecond = 1"

definition Second :: Duration where
  "Second = 1000000000 * Nanosecond"

definition Minute :: Duration where
  "Minute = 60 * Second"

text \<open>\<open>const FILE_DURATION = time.Duration(5 * time.Minute)\<close>\<close>

definition FILE_DURATION :: Duration where
  "FILE_DURATION = 5 * Minute"

text \<open>The zero \<open>time.Time{}\<close>, which \<open>time.Parse\<close> returns beside an error.\<close>

definition zeroTime :: Time where
  "zeroTime = \<lparr>wall = 0, loc = 0\<rparr>"

text \<open>\<open>t.Before(u)\<close> and \<open>t.After(u)\<close> compare the instants and nothing else.\<close>

definition Before :: "Time \<Rightarrow> Time \<Rightarrow> bool" where
  "Before t u = (wall t < wall u)"

definition After :: "Time \<Rightarrow> Time \<Rightarrow> bool" where
  "After t u = (wall t > wall u)"

text \<open>\<open>t.Add(d)\<close> moves the instant and keeps the location.\<close>

definition Add :: "Time \<Rightarrow> Duration \<Rightarrow> Time" where
  "Add t d = t\<lparr>wall := wall t + d\<rparr>"

text \<open>
  \<open>t.Round(d)\<close>, as the standard library computes it: \<open>t\<close> itself when \<open>d \<le> 0\<close>;
  otherwise, with \<open>r\<close> the remainder of the time since the zero time by \<open>d\<close> (never
  negative, also for an instant before the zero time), \<open>t.Add(-r)\<close> when \<open>r + r < d\<close>
  and \<open>t.Add(d - r)\<close> when not, so that a halfway value rounds up.
\<close>

definition Round :: "Time \<Rightarrow> Duration \<Rightarrow> Time" where
  "Round t d =
     (if d \<le> 0 then t
      else (let r = wall t mod d
            in if r + r < d then Add t (- r) else Add t (d - r)))"

section \<open>The window bounds of compileMonitorData\<close>

text \<open>
  \<^verbatim>\<open>
  roundedDownStartTime := firstTimestamp.Round(FILE_DURATION)
  if roundedDownStartTime.After(firstTimestamp) {
      roundedDownStartTime = roundedDownStartTime.Add(-FILE_DURATION)
  }
  roundedUpEndTime := lastTimestamp.Round(FILE_DURATION)
  if roundedUpEndTime.Before(lastTimestamp) {
      roundedUpEndTime = roundedUpEndTime.Add(FILE_DURATION)
  }
  \<close>
  The duration is a parameter here, as it is one of \<open>Round\<close> and \<open>Add\<close>; the archiver
  passes \<open>FILE_DURATION\<close>.
\<close>

definition roundedDownStartTime :: "Duration \<Rightarrow> Time \<Rightarrow> Time" where
  "roundedDownStartTime d firstTimestamp =
     (let rounded = Round firstTimestamp d
      in if After rounded firstTimestamp then Add rounded (- d) else rounded)"

definition roundedUpEndTime :: "Duration \<Rightarrow> Time \<Rightarrow> Time" where
  "roundedUpEndTime d lastTimestamp =
     (let rounded = Round lastTimestamp d
      in if Before rounded lastTimestamp then Add rounded d else rounded)"

text \<open>
  The specification's words: a window's start is aligned to a multiple of
  \<open>windowDuration\<close> since the epoch, \<open>alignedStart(t) = floor(t / windowDuration) *
  windowDuration\<close> (epoch-aligned flooring). The epoch is the Unix epoch,
  1970-01-01T00:00:00Z, which is 62135596800 seconds after Go's zero time; \<open>t\<close> in the
  formula is the time since the epoch. On \<open>int\<close>, \<open>div\<close> is the floor of the quotient.
\<close>

definition unixEpoch :: int where
  "unixEpoch = 62135596800 * Second"

definition alignedStart :: "Duration \<Rightarrow> Time \<Rightarrow> Time" where
  "alignedStart windowDuration t =
     (let sinceEpoch = wall t - unixEpoch
      in t\<lparr>wall := unixEpoch + (sinceEpoch div windowDuration) * windowDuration\<rparr>)"

section \<open>The records, the compiled file and its JSON\<close>

text \<open>
  The payload of a record, \<open>map[string]interface{}\<close>, is opaque to the archiver: it is
  copied from the record into the entry and handed to the JSON encoder. It is the type
  parameter \<open>'v\<close>.
\<close>

record 'v MonitorData =
  MonitorId :: string
  Timestamp :: string
  OrgId :: string
  Values :: 'v

record 'v Entry =
  Entry_Timestamp :: string
  Entry_Values :: 'v

record 'v CompiledMonitorData =
  Compiled_MonitorId :: string
  Compiled_OrgId :: string
  StartTime :: string
  Entries :: "'v Entry list"

text \<open>
  \<open>json.MarshalIndent\<close> writes a struct as an object whose members are the exported
  fields in the order of their declaration, each under the name its \<open>json:"..."\<close> tag
  gives. The encoded file is kept as that tree; the indentation and the text of the
  payload are the encoder's.
  \<^verbatim>\<open>
  type Entry struct {
      Timestamp string                 `json:"timestamp"`
      Values    map[string]interface{} `json:"monitorId"`
  }
  type CompiledMonitorData struct {
      MonitorId string  `json:"monitorId"`
      OrgId     string  `json:"orgId"`
      StartTime string  `json:"startTime"`
      Entries   []Entry `json:"entries"`
  }
  \<close>
\<close>

datatype 'v json =
  JString string
| JArray "'v json list"
| JObject "(string \<times> 'v json) list"
| JPayload 'v

definition marshalEntry :: "'v Entry \<Rightarrow> 'v json" where
  "marshalEntry e =
     JObject [(''timestamp'', JString (Entry_Timestamp e)),
             (''monitorId'', JPayload (Entry_Values e))]"

definition marshalCompiledMonitorData :: "'v CompiledMonitorData \<Rightarrow> 'v json" where
  "marshalCompiledMonitorData c =
     JObject [(''monitorId'', JString (Compiled_MonitorId c)),
             (''orgId'', JString (Compiled_OrgId c)),
             (''startTime'', JString (StartTime c)),
             (''entries'', JArray (map marshalEntry (Entries c)))]"

text \<open>The member names of an object, in the order written, and the member of one name.\<close>

fun memberNames :: "'v json \<Rightarrow> string list" where
  "memberNames (JObject ms) = map fst ms"
| "memberNames _ = []"

fun memberNamed :: "string \<Rightarrow> 'v json \<Rightarrow> 'v json option" where
  "memberNamed name (JObject ms) = map_of ms name"
| "memberNamed name _ = None"

fun elements :: "'v json \<Rightarrow> 'v json list" where
  "elements (JArray js) = js"
| "elements _ = []"

section \<open>compileAndStoreinS3\<close>

definition BUCKET_NAME :: string where
  "BUCKET_NAME = ''lumi-monitor-data''"

record 'v PutObjectInput =
  Bucket :: string
  Key :: string
  Body :: "'v json"

text \<open>
  What one call of \<open>compileAndStoreinS3\<close> does: it returns at once on an empty slice
  (\<open>NoFile\<close>); otherwise it calls \<open>client.PutObject\<close> once, and either logs the error
  and returns (\<open>UploadFailed\<close>) or logs that the data are archived (\<open>Archived\<close>).
  The function has no result in Go; the outcome is what it did.
\<close>

datatype 'v outcome =
  NoFile
| UploadFailed "'v PutObjectInput" string
| Archived "'v PutObjectInput"

text \<open>
  \<open>Format\<close> stands for \<open>t.Format(time.RFC3339)\<close> and \<open>client\<close> for
  \<open>client.PutObject(context.TODO(), input)\<close>, which answers with an error or with none.
\<close>

definition filename :: "(Time \<Rightarrow> string) \<Rightarrow> string \<Rightarrow> string \<Rightarrow> Time \<Rightarrow> string" where
  "filename Format orgId monitorId slotStartTime =
     orgId @ ''/'' @ monitorId @ ''/'' @ Format slotStartTime @ ''-data.json''"

definition compileAndStoreinS3 ::
  "(Time \<Rightarrow> string) \<Rightarrow> ('v PutObjectInput \<Rightarrow> string option)
     \<Rightarrow> 'v MonitorData list \<Rightarrow> Time \<Rightarrow> 'v outcome" where
  "compileAndStoreinS3 Format client splitDataArray slotStartTime =
     (if length splitDataArray = 0 then NoFile
      else
        (let orgId = OrgId (splitDataArray ! 0);
             monitorId = MonitorId (splitDataArray ! 0);
             entries = map (\<lambda>data. \<lparr>Entry_Timestamp = Timestamp data,
                                     Entry_Values = Values data\<rparr>) splitDataArray;
             compiled = \<lparr>Compiled_MonitorId = monitorId, Compiled_OrgId = orgId,
                         StartTime = Format slotStartTime, Entries = entries\<rparr>;
             manifestJson = marshalCompiledMonitorData compiled;
             input = \<lparr>Bucket = BUCKET_NAME,
                      Key = filename Format orgId monitorId slotStartTime,
                      Body = manifestJson\<rparr>
         in case client input of
              Some err \<Rightarrow> UploadFailed input err
            | None \<Rightarrow> Archived input))"

text \<open>The request a call sent to the store, if it sent one.\<close>

fun sent :: "'v outcome \<Rightarrow> 'v PutObjectInput option" where
  "sent NoFile = None"
| "sent (UploadFailed input err) = Some input"
| "sent (Archived input) = Some input"

section \<open>compileMonitorData\<close>

text \<open>
  \<open>Parse\<close> stands for \<open>time.Parse(time.RFC3339, s)\<close>: \<open>None\<close> is its error. The
  archiver drops the error every time (\<open>t, _ := time.Parse(...)\<close>, and in the sort's
  comparison an empty \<open>if err != nil\<close> with a to-do note), so it goes on with the zero
  time that \<open>time.Parse\<close> returns beside it.
\<close>

definition parsed :: "(string \<Rightarrow> Time option) \<Rightarrow> string \<Rightarrow> Time" where
  "parsed Parse s = (case Parse s of Some t \<Rightarrow> t | None \<Rightarrow> zeroTime)"

text \<open>The comparison handed to \<open>sort.Slice\<close>.\<close>

definition timestampLess ::
  "(string \<Rightarrow> Time option) \<Rightarrow> 'v MonitorData \<Rightarrow> 'v MonitorData \<Rightarrow> bool" where
  "timestampLess Parse a b =
     (let timestampI = parsed Parse (Timestamp a);
          timestampJ = parsed Parse (Timestamp b)
      in Before timestampI timestampJ)"

text \<open>
  The loop over the five-minute slots. Each round filters the whole array for the slot
  and starts \<open>compileAndStoreinS3(&fileWg, splitDataArray, slotStartTime, client)\<close>; the
  result lists the arguments of these calls in the order of the rounds.
  \<^verbatim>\<open>
  for !splitTime.After(roundedUpEndTime) {
      slotStartTime := splitTime.Add(-FILE_DURATION)
      splitDataArray := []MonitorData{}
      for _, data := range dataArray {
          currentTimestamp, _ := time.Parse(time.RFC3339, data.Timestamp)
          if currentTimestamp.After(slotStartTime) && currentTimestamp.Before(splitTime) {
              splitDataArray = append(splitDataArray, data)
          }
      }
      fileWg.Add(1)
      go compileAndStoreinS3(&fileWg, splitDataArray, slotStartTime, client)
      splitTime = splitTime.Add(FILE_DURATION)
  }
  \<close>
\<close>

function slotLoop ::
  "(string \<Rightarrow> Time option) \<Rightarrow> 'v MonitorData list \<Rightarrow> Time \<Rightarrow> Time
     \<Rightarrow> ('v MonitorData list \<times> Time) list" where
  "slotLoop Parse dataArray roundedUpEnd splitTime =
     (if After splitTime roundedUpEnd then []
      else
        (let slotStartTime = Add splitTime (- FILE_DURATION);
             splitDataArray =
               filter (\<lambda>data.
                  (let currentTimestamp = parsed Parse (Timestamp data)
                   in After currentTimestamp slotStartTime \<and> Before currentTimestamp splitTime))
                 dataArray
         in (splitDataArray, slotStartTime)
              # slotLoop Parse dataArray roundedUpEnd (Add splitTime FILE_DURATION)))"
  by pat_completeness auto
termination
  by (relation "measure (\<lambda>(Parse, dataArray, roundedUpEnd, splitTime).
                    nat (wall roundedUpEnd - wall splitTime + 1))")
     (simp_all add: After_def Add_def FILE_DURATION_def Minute_def Second_def Nanosecond_def)

declare slotLoop.simps [simp del]

text \<open>
  Lines 143 to 172 of the function, on the array as \<open>sort.Slice\<close> left it: the slots and
  what goes into each. Reading \<open>dataArray[0]\<close> of an empty array panics.
\<close>

datatype panic = IndexOutOfRange

definition fileSlots ::
  "(string \<Rightarrow> Time option) \<Rightarrow> 'v MonitorData list
     \<Rightarrow> panic + ('v MonitorData list \<times> Time) list" where
  "fileSlots Parse dataArray =
     (if length dataArray = 0 then Inl IndexOutOfRange
      else
        (let firstTimestamp = parsed Parse (Timestamp (dataArray ! 0));
             lastTimestamp = parsed Parse (Timestamp (dataArray ! (length dataArray - 1)));
             roundedDown = roundedDownStartTime FILE_DURATION firstTimestamp;
             roundedUp = roundedUpEndTime FILE_DURATION lastTimestamp;
             splitTime = Add roundedDown FILE_DURATION
         in Inr (slotLoop Parse dataArray roundedUp splitTime)))"

text \<open>
  The whole function. \<open>sortSlice\<close> stands for \<open>sort.Slice\<close>, which sorts the array in
  place by the comparison it is given. The calls of \<open>compileAndStoreinS3\<close> run as
  goroutines that the function waits for; they share nothing, so what each one does is
  listed slot by slot.
\<close>

definition compileMonitorData ::
  "(('v MonitorData \<Rightarrow> 'v MonitorData \<Rightarrow> bool) \<Rightarrow> 'v MonitorData list \<Rightarrow> 'v MonitorData list)
     \<Rightarrow> (string \<Rightarrow> Time option) \<Rightarrow> (Time \<Rightarrow> string)
     \<Rightarrow> ('v PutObjectInput \<Rightarrow> string option)
     \<Rightarrow> 'v MonitorData list \<Rightarrow> panic + 'v outcome list" where
  "compileMonitorData sortSlice Parse Format client dataArray =
     (case fileSlots Parse (sortSlice (timestampLess Parse) dataArray) of
        Inl p \<Rightarrow> Inl p
      | Inr slots \<Rightarrow>
          Inr (map (\<lambda>(splitDataArray, slotStartTime).
                      compileAndStoreinS3 Format client splitDataArray slotStartTime) slots))"

section \<open>HandleRequest\<close>

record Event =
  Name :: string

text \<open>
  \<open>monitorDataMap[data.MonitorId] = append(monitorDataMap[data.MonitorId], data)\<close>:
  the map from monitor to its records, kept as an association list with the monitors in
  the order of their first record. (Go ranges over a map in no fixed order, and the
  handler starts one goroutine for each monitor.)
\<close>

fun appendTo :: "string \<Rightarrow> 'a \<Rightarrow> (string \<times> 'a list) list \<Rightarrow> (string \<times> 'a list) list" where
  "appendTo k v [] = [(k, [v])]"
| "appendTo k v ((k', vs) # m) =
     (if k = k' then (k', vs @ [v]) # m else (k', vs) # appendTo k v m)"

definition monitorDataMap :: "'v MonitorData list \<Rightarrow> (string \<times> 'v MonitorData list) list" where
  "monitorDataMap allMonitorData =
     foldl (\<lambda>m data. appendTo (MonitorId data) data m) [] allMonitorData"

text \<open>
  How a call of the handler ends: \<open>log.Fatalf\<close> ends the process when the configuration
  does not load; a panic in a goroutine ends it too; otherwise the handler returns its
  string and its error, after the goroutines have done what \<open>Returned\<close> lists third,
  monitor by monitor and slot by slot.
\<close>

datatype 'v handled =
  Exited
| Panicked
| Returned string "string option" "'v outcome list list"

text \<open>
  \<open>loadConfig\<close> is the error of \<open>config.LoadDefaultConfig\<close>, if any, and \<open>fetched\<close> is
  what \<open>fetchAllMonitorData(dynamoClient)\<close> returned: an error (with a nil slice) or the
  records. The handler assigns that error to \<open>err\<close> and never reads it.
\<close>

definition HandleRequest ::
  "(('v MonitorData \<Rightarrow> 'v MonitorData \<Rightarrow> bool) \<Rightarrow> 'v MonitorData list \<Rightarrow> 'v MonitorData list)
     \<Rightarrow> (string \<Rightarrow> Time option) \<Rightarrow> (Time \<Rightarrow> string)
     \<Rightarrow> ('v PutObjectInput \<Rightarrow> string option)
     \<Rightarrow> string option \<Rightarrow> string + 'v MonitorData list \<Rightarrow> Event \<Rightarrow> 'v handled" where
  "HandleRequest sortSlice Parse Format client loadConfig fetched event =
     (case loadConfig of
        Some err \<Rightarrow> Exited
      | None \<Rightarrow>
          (let allMonitorData = (case fetched of Inl err \<Rightarrow> [] | Inr result \<Rightarrow> result);
               compiled = map (\<lambda>(monitorId, dataArray).
                                  compileMonitorData sortSlice Parse Format client dataArray)
                            (monitorDataMap allMonitorData)
           in if list_ex isl compiled then Panicked
              else Returned (''Hello '' @ Name event) None (map projr compiled)))"

text \<open>What the caller of the handler gets back.\<close>

fun returned :: "'v handled \<Rightarrow> (string \<times> string option) option" where
  "returned (Returned s err done) = Some (s, err)"
| "returned _ = None"

fun outcomes :: "'v handled \<Rightarrow> 'v outcome list list" where
  "outcomes (Returned s err done) = done"
| "outcomes _ = []"

section \<open>sort.Slice\<close>

text \<open>
  \<open>sort.Slice\<close> belongs to Go's standard library. Its documentation promises that it
  sorts the slice by the comparison and adds: the sort is not guaranteed to be stable, so
  equal elements may be reversed from their original order. For the archiver's comparison,
  which orders the records by the instants of their timestamps (\<open>instant\<close>: the parsed
  timestamp, or the zero time), the promise is: the result holds the same records, and
  their instants ascend.
\<close>

definition instant :: "(string \<Rightarrow> Time option) \<Rightarrow> 'v MonitorData \<Rightarrow> int" where
  "instant Parse = (\<lambda>data. wall (parsed Parse (Timestamp data)))"

definition sortsByTimestamp ::
  "(('v MonitorData \<Rightarrow> 'v MonitorData \<Rightarrow> bool) \<Rightarrow> 'v MonitorData list \<Rightarrow> 'v MonitorData list)
     \<Rightarrow> (string \<Rightarrow> Time option) \<Rightarrow> bool" where
  "sortsByTimestamp sortSlice Parse =
     (\<forall>dataArray.
        mset (sortSlice (timestampLess Parse) dataArray) = mset dataArray
        \<and> sorted (map (instant Parse) (sortSlice (timestampLess Parse) dataArray)))"

text \<open>
  On a slice of at most twelve elements \<open>sort.Slice\<close> runs the library's insertion sort
  and nothing else:
  \<^verbatim>\<open>
  for i := a + 1; i < b; i++ {
      for j := i; j > a && less(data[j], data[j-1]); j-- {
          data.Swap(j, j-1)
      }
  }
  \<close>
  \<open>insertBack\<close> is the inner loop: it moves the new element down past every element it
  is less than; the sorted part is held last element first.
\<close>

fun insertBack :: "('a \<Rightarrow> 'a \<Rightarrow> bool) \<Rightarrow> 'a \<Rightarrow> 'a list \<Rightarrow> 'a list" where
  "insertBack lessFunc x [] = [x]"
| "insertBack lessFunc x (y # ys) =
     (if lessFunc x y then y # insertBack lessFunc x ys else x # y # ys)"

definition insertionSortLessFunc :: "('a \<Rightarrow> 'a \<Rightarrow> bool) \<Rightarrow> 'a list \<Rightarrow> 'a list" where
  "insertionSortLessFunc lessFunc data =
     rev (foldl (\<lambda>sortedPart x. insertBack lessFunc x sortedPart) [] data)"

section \<open>RFC 3339 text of UTC times\<close>

text \<open>
  \<open>time.Parse\<close> and \<open>Format\<close> are the standard library's too, and the archiver's
  functions above take them as parameters. For the worked examples, \<open>parseRFC3339\<close> and
  \<open>formatRFC3339\<close> read and write the text \<open>2006-01-02T15:04:05Z\<close> that
  \<open>time.Now().UTC().Format(time.RFC3339)\<close> produces (the form the archiver itself writes
  into its query), and the same with a numeric offset, \<open>2006-01-02T16:04:05+01:00\<close>.
  As \<open>time.Parse\<close> does, \<open>parseRFC3339\<close> keeps the offset as the location of the time
  it returns, and \<open>formatRFC3339\<close> writes the clock of that location: \<open>Z\<close> for the
  offset zero, \<open>+hh:mm\<close> or \<open>-hh:mm\<close> otherwise.
\<close>

definition isLeap :: "int \<Rightarrow> bool" where
  "isLeap y = (y mod 4 = 0 \<and> (y mod 100 \<noteq> 0 \<or> y mod 400 = 0))"

definition daysIn :: "int \<Rightarrow> int \<Rightarrow> int" where
  "daysIn y m =
     (if m = 2 then (if isLeap y then 29 else 28)
      else if m = 4 \<or> m = 6 \<or> m = 9 \<or> m = 11 then 30 else 31)"

text \<open>Days from January 1 of year 1 to January 1 of year \<open>y\<close>.\<close>

definition daysBeforeYear :: "int \<Rightarrow> int" where
  "daysBeforeYear y = 365 * (y - 1) + (y - 1) div 4 - (y - 1) div 100 + (y - 1) div 400"

definition daysBeforeMonth :: "int \<Rightarrow> int \<Rightarrow> int" where
  "daysBeforeMonth y m = sum_list (map (daysIn y) [1..m - 1])"

definition digitValue :: "char \<Rightarrow> int option" where
  "digitValue c =
     map_of [(CHR ''0'', 0), (CHR ''1'', 1), (CHR ''2'', 2), (CHR ''3'', 3), (CHR ''4'', 4),
             (CHR ''5'', 5), (CHR ''6'', 6), (CHR ''7'', 7), (CHR ''8'', 8), (CHR ''9'', 9)] c"

fun number :: "string \<Rightarrow> int option" where
  "number [] = Some 0"
| "number (c # cs) =
     (case (digitValue c, number cs) of
        (Some d, Some n) \<Rightarrow> Some (d * 10 ^ length cs + n)
      | _ \<Rightarrow> None)"

definition zoneOffset :: "string \<Rightarrow> int option" where
  "zoneOffset z =
     (if z = ''Z'' then Some 0
      else if length z = 6 \<and> (z ! 0 = CHR ''+'' \<or> z ! 0 = CHR ''-'') \<and> z ! 3 = CHR '':''
      then
        (case (number (take 2 (drop 1 z)), number (drop 4 z)) of
           (Some h, Some m) \<Rightarrow>
             (if h < 24 \<and> m < 60
              then Some ((if z ! 0 = CHR ''-'' then - 1 else 1) * (h * 3600 + m * 60))
              else None)
         | _ \<Rightarrow> None)
      else None)"

definition parseRFC3339 :: "string \<Rightarrow> Time option" where
  "parseRFC3339 s =
     (if 20 \<le> length s
         \<and> s ! 4 = CHR ''-'' \<and> s ! 7 = CHR ''-'' \<and> s ! 10 = CHR ''T''
         \<and> s ! 13 = CHR '':'' \<and> s ! 16 = CHR '':''
      then
        (case (number (take 4 s), number (take 2 (drop 5 s)), number (take 2 (drop 8 s)),
               number (take 2 (drop 11 s)), number (take 2 (drop 14 s)),
               number (take 2 (drop 17 s)), zoneOffset (drop 19 s)) of
           (Some y, Some m, Some d, Some h, Some mi, Some sec, Some offset) \<Rightarrow>
             (if 1 \<le> m \<and> m \<le> 12 \<and> 1 \<le> d \<and> d \<le> daysIn y m \<and> h < 24 \<and> mi < 60 \<and> sec < 60
              then Some \<lparr>wall = ((((daysBeforeYear y + daysBeforeMonth y m + d - 1) * 24 + h) * 60
                                    + mi) * 60 + sec - offset) * Second,
                         loc = offset\<rparr>
              else None)
         | _ \<Rightarrow> None)
      else None)"

definition digitChar :: "int \<Rightarrow> char" where
  "digitChar n = ''0123456789'' ! nat n"

definition pad2 :: "int \<Rightarrow> string" where
  "pad2 n = [digitChar (n div 10 mod 10), digitChar (n mod 10)]"

definition pad4 :: "int \<Rightarrow> string" where
  "pad4 n = pad2 (n div 100) @ pad2 (n mod 100)"

text \<open>The year of a day counted from January 1 of year 1, and the day within that year.\<close>

definition yearAndDay :: "int \<Rightarrow> int \<times> int" where
  "yearAndDay days =
     (let n400 = days div 146097;
          d1 = days mod 146097;
          n100 = min 3 (d1 div 36524);
          d2 = d1 - 36524 * n100;
          n4 = d2 div 1461;
          d3 = d2 mod 1461;
          n1 = min 3 (d3 div 365)
      in (400 * n400 + 100 * n100 + 4 * n4 + n1 + 1, d3 - 365 * n1))"

fun monthAndDay :: "int \<Rightarrow> int list \<Rightarrow> int \<Rightarrow> int \<times> int" where
  "monthAndDay y [] yday = (12, yday + 1)"
| "monthAndDay y (m # ms) yday =
     (if yday < daysIn y m then (m, yday + 1) else monthAndDay y ms (yday - daysIn y m))"

definition zoneText :: "int \<Rightarrow> string" where
  "zoneText offset =
     (if offset = 0 then ''Z''
      else (if offset < 0 then ''-'' else ''+'')
             @ pad2 (abs offset div 3600) @ '':'' @ pad2 (abs offset mod 3600 div 60))"

definition formatRFC3339 :: "Time \<Rightarrow> string" where
  "formatRFC3339 t =
     (let secs = wall t div Second + loc t;
          days = secs div 86400;
          clock = secs mod 86400;
          (y, yday) = yearAndDay days;
          (m, d) = monthAndDay y [1..12] yday
      in pad4 y @ ''-'' @ pad2 m @ ''-'' @ pad2 d @ ''T''
           @ pad2 (clock div 3600) @ '':'' @ pad2 (clock mod 3600 div 60) @ '':''
           @ pad2 (clock mod 60) @ zoneText (loc t))"

section \<open>Records for the worked examples\<close>

text \<open>A reading of monitor \<open>m1\<close> of organisation \<open>org1\<close>, with a text as its payload.\<close>

definition reading :: "string \<Rightarrow> string \<Rightarrow> string MonitorData" where
  "reading timestamp payload =
     \<lparr>MonitorId = ''m1'', Timestamp = timestamp, OrgId = ''org1'', Values = payload\<rparr>"

text \<open>The slots as text: the timestamps that went into each, and the slot's start.\<close>

definition slotsText ::
  "panic + ('v MonitorData list \<times> Time) list \<Rightarrow> panic + (string list \<times> string) list" where
  "slotsText slots =
     map_sum id (map (\<lambda>(splitDataArray, slotStartTime).
                        (map Timestamp splitDataArray, formatRFC3339 slotStartTime))) slots"

section \<open>Facts about the bounds\<close>

lemma wall_Add: "wall (Add t d) = wall t + d"
  by (simp add: Add_def)

lemma loc_Add: "loc (Add t d) = loc t"
  by (simp add: Add_def)

lemma FILE_DURATION_pos: "0 < FILE_DURATION"
  by (simp add: FILE_DURATION_def Minute_def Second_def Nanosecond_def)

lemma wall_roundedDownStartTime:
  assumes "0 < d"
  shows "wall (roundedDownStartTime d t) = wall t - wall t mod d"
proof -
  have "wall t mod d < d" and "0 \<le> wall t mod d"
    using assms by simp_all
  then show ?thesis
    by (simp add: roundedDownStartTime_def Round_def Let_def After_def wall_Add)
qed

lemma loc_roundedDownStartTime: "loc (roundedDownStartTime d t) = loc t"
  by (simp add: roundedDownStartTime_def Round_def Let_def loc_Add)

lemma wall_roundedUpEndTime:
  assumes "0 < d"
  shows "wall (roundedUpEndTime d t) =
           (if wall t mod d = 0 then wall t else wall t - wall t mod d + d)"
proof -
  have "wall t mod d < d" and "0 \<le> wall t mod d"
    using assms by simp_all
  then show ?thesis
    by (auto simp add: roundedUpEndTime_def Round_def Let_def Before_def wall_Add)
qed

lemma FILE_DURATION_divides_unixEpoch: "FILE_DURATION dvd unixEpoch"
proof -
  have "unixEpoch = FILE_DURATION * 207118656"
    by (simp add: unixEpoch_def FILE_DURATION_def Minute_def Second_def Nanosecond_def)
  then show ?thesis
    by (rule dvdI)
qed

lemma floor_from_epoch:
  assumes "d dvd epoch" and "d \<noteq> 0"
  shows "epoch + ((w - epoch) div d) * d = (w div d) * (d :: int)"
proof -
  from assms(1) obtain k where epoch: "epoch = d * k"
    by (rule dvdE)
  have "(w - epoch) div d = (w + (- k) * d) div d"
    by (simp add: epoch mult.commute)
  also have "\<dots> = - k + w div d"
    using assms(2) by (rule div_mult_self1)
  finally have step: "(w - epoch) div d = w div d - k"
    by simp
  show ?thesis
    unfolding step by (simp add: epoch algebra_simps)
qed

text \<open>
  C7, as the specification states it: for every timestamp and every positive window
  duration, rounding to the nearest multiple and stepping back when the rounded value lies
  after the timestamp equals the epoch-aligned floor \<open>alignedStart\<close>. \<open>Round\<close> counts
  the multiples from Go's zero time, not from the epoch: with a window of 7 seconds the
  archiver's start for 2024-01-01T10:07:10Z is 10:07:08Z, and the epoch-aligned floor is
  10:07:05Z.
\<close>

theorem roundedDownStartTime_seven_seconds_counterexample:
  "parseRFC3339 ''2024-01-01T10:07:10Z'' = Some \<lparr>wall = 63839700430000000000, loc = 0\<rparr>
   \<and> formatRFC3339 (roundedDownStartTime (7 * Second)
                       \<lparr>wall = 63839700430000000000, loc = 0\<rparr>)
       = ''2024-01-01T10:07:08Z''
   \<and> formatRFC3339 (alignedStart (7 * Second) \<lparr>wall = 63839700430000000000, loc = 0\<rparr>)
       = ''2024-01-01T10:07:05Z''
   \<and> roundedDownStartTime (7 * Second) \<lparr>wall = 63839700430000000000, loc = 0\<rparr>
       \<noteq> alignedStart (7 * Second) \<lparr>wall = 63839700430000000000, loc = 0\<rparr>"
  by code_simp

text \<open>
  C7, amended. For every timestamp \<open>t\<close> and every positive window duration \<open>d\<close>, the
  archiver's \<open>roundedDownStartTime\<close> is the greatest multiple of \<open>d\<close>, counted from Go's
  zero time, that is not after \<open>t\<close>, in the location of \<open>t\<close>; it equals the
  specification's epoch-aligned \<open>alignedStart\<close> whenever \<open>d\<close> divides the 62135596800
  seconds from the zero time to the epoch, as the archiver's five minutes do.
\<close>

theorem roundedDownStartTime_floors_from_zero_time:
  assumes "0 < d"
  shows "wall (roundedDownStartTime d t) = (wall t div d) * d
         \<and> loc (roundedDownStartTime d t) = loc t
         \<and> (d dvd unixEpoch \<longrightarrow> roundedDownStartTime d t = alignedStart d t)
         \<and> roundedDownStartTime FILE_DURATION t = alignedStart FILE_DURATION t"
proof -
  have zero: "wall (roundedDownStartTime e t) = (wall t div e) * e" if "0 < e" for e
    using that by (simp add: wall_roundedDownStartTime minus_mod_eq_div_mult)
  have epoch: "roundedDownStartTime e t = alignedStart e t" if "0 < e" and "e dvd unixEpoch" for e
  proof -
    from that have "unixEpoch + ((wall t - unixEpoch) div e) * e = (wall t div e) * e"
      by (intro floor_from_epoch) simp_all
    then have "wall (roundedDownStartTime e t) = wall (alignedStart e t)"
      using zero [OF that(1)] by (simp add: alignedStart_def Let_def)
    moreover have "loc (roundedDownStartTime e t) = loc (alignedStart e t)"
      by (simp add: loc_roundedDownStartTime alignedStart_def Let_def)
    ultimately show ?thesis
      by simp
  qed
  from assms zero epoch FILE_DURATION_pos FILE_DURATION_divides_unixEpoch show ?thesis
    by (simp add: loc_roundedDownStartTime)
qed

text \<open>
  2024-01-01T10:08:30Z with the archiver's five minutes: \<open>Round\<close> goes up to 10:10:00,
  which is after the timestamp, and the step back gives 10:05:00, the epoch-aligned floor.
\<close>

theorem roundedDownStartTime_floors_from_zero_time_witness:
  "0 < FILE_DURATION
   \<and> FILE_DURATION dvd unixEpoch
   \<and> parseRFC3339 ''1970-01-01T00:00:00Z'' = Some \<lparr>wall = unixEpoch, loc = 0\<rparr>
   \<and> parseRFC3339 ''2024-01-01T10:08:30Z'' = Some \<lparr>wall = 63839700510000000000, loc = 0\<rparr>
   \<and> formatRFC3339 (Round \<lparr>wall = 63839700510000000000, loc = 0\<rparr> FILE_DURATION)
       = ''2024-01-01T10:10:00Z''
   \<and> roundedDownStartTime FILE_DURATION \<lparr>wall = 63839700510000000000, loc = 0\<rparr>
       = alignedStart FILE_DURATION \<lparr>wall = 63839700510000000000, loc = 0\<rparr>
   \<and> formatRFC3339 (alignedStart FILE_DURATION \<lparr>wall = 63839700510000000000, loc = 0\<rparr>)
       = ''2024-01-01T10:05:00Z''"
proof -
  have positive: "0 < FILE_DURATION"
    by (rule FILE_DURATION_pos)
  have divides: "FILE_DURATION dvd unixEpoch"
    by (rule FILE_DURATION_divides_unixEpoch)
  have epoch: "parseRFC3339 ''1970-01-01T00:00:00Z'' = Some \<lparr>wall = unixEpoch, loc = 0\<rparr>"
    by code_simp
  have parse: "parseRFC3339 ''2024-01-01T10:08:30Z''
               = Some \<lparr>wall = 63839700510000000000, loc = 0\<rparr>"
    by code_simp
  have rounded: "formatRFC3339 (Round \<lparr>wall = 63839700510000000000, loc = 0\<rparr> FILE_DURATION)
                 = ''2024-01-01T10:10:00Z''"
    by code_simp
  have floor: "formatRFC3339 (alignedStart FILE_DURATION
                                \<lparr>wall = 63839700510000000000, loc = 0\<rparr>)
               = ''2024-01-01T10:05:00Z''"
    by code_simp
  from roundedDownStartTime_floors_from_zero_time
         [OF positive, of "\<lparr>wall = 63839700510000000000, loc = 0\<rparr>"] divides
  have "roundedDownStartTime FILE_DURATION \<lparr>wall = 63839700510000000000, loc = 0\<rparr>
        = alignedStart FILE_DURATION \<lparr>wall = 63839700510000000000, loc = 0\<rparr>"
    by blast
  with positive divides epoch parse rounded floor show ?thesis
    by blast
qed

section \<open>Facts about sort.Slice and the slots\<close>

lemma timestampLess_instant: "timestampLess Parse a b = (instant Parse a < instant Parse b)"
  by (simp add: timestampLess_def instant_def Before_def)

lemma mset_insertBack: "mset (insertBack lessFunc x ys) = add_mset x (mset ys)"
  by (induction ys) simp_all

lemma set_insertBack: "set (insertBack lessFunc x ys) = insert x (set ys)"
  by (induction ys) auto

lemma mset_foldl_insertBack:
  "mset (foldl (\<lambda>sortedPart x. insertBack lessFunc x sortedPart) acc xs) = mset acc + mset xs"
  by (induction xs arbitrary: acc) (simp_all add: mset_insertBack)

lemma descending_insertBack:
  assumes "sorted_wrt (\<lambda>a b. f b \<le> (f a :: int)) ys"
    and "\<And>a b. lessFunc a b = (f a < f b)"
  shows "sorted_wrt (\<lambda>a b. f b \<le> f a) (insertBack lessFunc x ys)"
  using assms(1)
proof (induction ys)
  case Nil
  then show ?case by simp
next
  case (Cons y ys)
  then show ?case
    by (auto simp add: assms(2) set_insertBack)
qed

lemma descending_foldl_insertBack:
  assumes "\<And>a b. lessFunc a b = (f a < f b)"
  shows "sorted_wrt (\<lambda>a b. f b \<le> (f a :: int)) acc
         \<Longrightarrow> sorted_wrt (\<lambda>a b. f b \<le> f a)
               (foldl (\<lambda>sortedPart x. insertBack lessFunc x sortedPart) acc xs)"
proof (induction xs arbitrary: acc)
  case Nil
  then show ?case by simp
next
  case (Cons x xs)
  then show ?case
    by (simp add: descending_insertBack [OF _ assms])
qed

lemma insertionSortLessFunc_sorts: "sortsByTimestamp insertionSortLessFunc Parse"
proof -
  have "mset (insertionSortLessFunc (timestampLess Parse) dataArray) = mset dataArray"
    for dataArray :: "'a MonitorData list"
    by (simp add: insertionSortLessFunc_def mset_foldl_insertBack)
  moreover have "sorted (map (instant Parse)
                    (insertionSortLessFunc (timestampLess Parse) dataArray))"
    for dataArray :: "'a MonitorData list"
  proof -
    have "sorted_wrt (\<lambda>a b. instant Parse b \<le> instant Parse a)
            (foldl (\<lambda>sortedPart x. insertBack (timestampLess Parse) x sortedPart) [] dataArray)"
      by (rule descending_foldl_insertBack) (simp_all add: timestampLess_instant)
    then show ?thesis
      by (simp add: insertionSortLessFunc_def sorted_map sorted_wrt_rev)
  qed
  ultimately show ?thesis
    unfolding sortsByTimestamp_def by blast
qed

lemma sorted_unique:
  assumes "sorted (map f xs)" and "sorted (map f ys)"
    and "distinct (map f xs)" and "mset xs = mset ys"
  shows "xs = (ys :: 'a list)"
proof -
  have sets: "set xs = set ys"
    using assms(4) by (rule mset_eq_setD)
  have "mset (map f xs) = mset (map f ys)"
    using assms(4) by simp
  from mset_eq_imp_distinct_iff [OF this] have dy: "distinct (map f ys)"
    using assms(3) by blast
  have "inj_on f (set xs \<union> set ys)"
    using assms(3) sets by (simp add: distinct_map)
  then show ?thesis
    using assms(1) assms(3) assms(2) dy sets by (rule map_sorted_distinct_set_unique)
qed

lemma sortSlice_permutation:
  assumes "sortsByTimestamp sortSlice Parse"
    and "distinct (map (instant Parse) dataArray)"
    and "mset permuted = mset dataArray"
  shows "sortSlice (timestampLess Parse) permuted = sortSlice (timestampLess Parse) dataArray"
proof (rule sorted_unique [where f = "instant Parse"])
  show "sorted (map (instant Parse) (sortSlice (timestampLess Parse) permuted))"
    using assms(1) by (simp add: sortsByTimestamp_def)
  show "sorted (map (instant Parse) (sortSlice (timestampLess Parse) dataArray))"
    using assms(1) by (simp add: sortsByTimestamp_def)
  have m: "mset (sortSlice (timestampLess Parse) permuted) = mset dataArray"
    using assms(1,3) by (simp add: sortsByTimestamp_def)
  then have "mset (map (instant Parse) (sortSlice (timestampLess Parse) permuted))
             = mset (map (instant Parse) dataArray)"
    by simp
  from mset_eq_imp_distinct_iff [OF this]
  show "distinct (map (instant Parse) (sortSlice (timestampLess Parse) permuted))"
    using assms(2) by blast
  show "mset (sortSlice (timestampLess Parse) permuted)
        = mset (sortSlice (timestampLess Parse) dataArray)"
    using m assms(1) by (simp add: sortsByTimestamp_def)
qed

lemma slotLoop_filter:
  "(splitDataArray, slotStartTime) \<in> set (slotLoop Parse dataArray roundedUp splitTime)
   \<Longrightarrow> \<exists>P. splitDataArray = filter P dataArray"
proof (induction Parse dataArray roundedUp splitTime rule: slotLoop.induct)
  case (1 Parse dataArray roundedUp splitTime)
  show ?case
  proof (cases "After splitTime roundedUp")
    case True
    with "1.prems" show ?thesis
      by (simp add: slotLoop.simps)
  next
    case False
    with "1.prems" have
      "splitDataArray =
         filter (\<lambda>data. After (parsed Parse (Timestamp data)) (Add splitTime (- FILE_DURATION))
                        \<and> Before (parsed Parse (Timestamp data)) splitTime) dataArray
       \<or> (splitDataArray, slotStartTime)
           \<in> set (slotLoop Parse dataArray roundedUp (Add splitTime FILE_DURATION))"
      by (subst (asm) slotLoop.simps) (auto simp add: Let_def)
    then show ?thesis
      using "1.IH" [OF False refl refl] by blast
  qed
qed

section \<open>Facts about the calls\<close>

lemma sent_compileAndStoreinS3:
  "sent (compileAndStoreinS3 Format client splitDataArray slotStartTime) =
     (if splitDataArray = [] then None
      else Some \<lparr>Bucket = BUCKET_NAME,
                 Key = filename Format (OrgId (hd splitDataArray)) (MonitorId (hd splitDataArray))
                         slotStartTime,
                 Body = marshalCompiledMonitorData
                          \<lparr>Compiled_MonitorId = MonitorId (hd splitDataArray),
                           Compiled_OrgId = OrgId (hd splitDataArray),
                           StartTime = Format slotStartTime,
                           Entries = map (\<lambda>data. \<lparr>Entry_Timestamp = Timestamp data,
                                                    Entry_Values = Values data\<rparr>)
                                       splitDataArray\<rparr>\<rparr>)"
  by (cases splitDataArray)
     (simp_all add: compileAndStoreinS3_def Let_def split: option.split)

lemma appendTo_nonempty:
  "\<forall>(k, vs) \<in> set m. vs \<noteq> [] \<Longrightarrow> \<forall>(k, vs) \<in> set (appendTo k' v m). vs \<noteq> []"
  by (induction m) (auto split: if_splits)

lemma foldl_appendTo_nonempty:
  "\<forall>(k, vs) \<in> set m. vs \<noteq> []
   \<Longrightarrow> \<forall>(k, vs) \<in> set (foldl (\<lambda>m data. appendTo (key data) data m) m xs). vs \<noteq> []"
proof (induction xs arbitrary: m)
  case Nil
  then show ?case by simp
next
  case (Cons x xs)
  from Cons.prems have "\<forall>(k, vs) \<in> set (appendTo (key x) x m). vs \<noteq> []"
    by (rule appendTo_nonempty)
  then show ?case
    using Cons.IH by simp
qed

lemma monitorDataMap_nonempty:
  "(monitorId, dataArray) \<in> set (monitorDataMap allMonitorData) \<Longrightarrow> dataArray \<noteq> []"
  using foldl_appendTo_nonempty [of "[]" MonitorId allMonitorData]
  by (auto simp add: monitorDataMap_def)

lemma compileMonitorData_no_panic:
  assumes "sortsByTimestamp sortSlice Parse" and "dataArray \<noteq> []"
  shows "\<not> isl (compileMonitorData sortSlice Parse Format client dataArray)"
proof -
  have "mset (sortSlice (timestampLess Parse) dataArray) = mset dataArray"
    using assms(1) by (simp add: sortsByTimestamp_def)
  with assms(2) have "sortSlice (timestampLess Parse) dataArray \<noteq> []"
    by auto
  then show ?thesis
    by (simp add: compileMonitorData_def fileSlots_def Let_def)
qed

lemma sent_whatever_client:
  "map sent (projr (compileMonitorData sortSlice Parse Format client dataArray))
   = map sent (projr (compileMonitorData sortSlice Parse Format client' dataArray))"
  by (cases "fileSlots Parse (sortSlice (timestampLess Parse) dataArray)")
     (simp_all add: compileMonitorData_def sent_compileAndStoreinS3 split_def)

lemma compileMonitorData_Inr:
  assumes "compileMonitorData sortSlice Parse Format client dataArray = Inr results"
  obtains slots where
    "fileSlots Parse (sortSlice (timestampLess Parse) dataArray) = Inr slots"
    "results = map (\<lambda>(splitDataArray, slotStartTime).
                   compileAndStoreinS3 Format client splitDataArray slotStartTime) slots"
  using assms by (auto simp add: compileMonitorData_def split: sum.splits)

lemma fileSlots_sorted:
  assumes "sorted (map f dataArray)"
    and "fileSlots Parse dataArray = Inr slots"
    and "(splitDataArray, slotStartTime) \<in> set slots"
  shows "sorted (map f splitDataArray)"
proof -
  from assms(2,3) obtain roundedUp splitTime where
    "(splitDataArray, slotStartTime) \<in> set (slotLoop Parse dataArray roundedUp splitTime)"
    by (auto simp add: fileSlots_def Let_def split: if_splits)
  then obtain P where "splitDataArray = filter P dataArray"
    using slotLoop_filter by blast
  with assms(1) show ?thesis
    by (simp add: sorted_filter)
qed

lemma separator_splits_once:
  "c \<notin> set xs \<Longrightarrow> c \<notin> set xs' \<Longrightarrow> xs @ c # ys = xs' @ c # ys'
   \<Longrightarrow> xs = xs' \<and> ys = ys'"
proof (induction xs arbitrary: xs')
  case Nil
  then show ?case
    by (cases xs') simp_all
next
  case (Cons a xs)
  show ?case
  proof (cases xs')
    case Nil
    with Cons.prems show ?thesis
      by simp
  next
    case (Cons b more)
    with Cons.prems have "c \<notin> set xs" and "c \<notin> set more"
      and "xs @ c # ys = more @ c # ys'" and "a = b"
      by simp_all
    with Cons.IH [of more] Cons show ?thesis
      by simp
  qed
qed

lemma filename_inject:
  assumes "CHR ''/'' \<notin> set orgId" and "CHR ''/'' \<notin> set orgId'"
    and "CHR ''/'' \<notin> set (Format t)" and "CHR ''/'' \<notin> set (Format t')"
    and "filename Format orgId monitorId t = filename Format orgId' monitorId' t'"
  shows "orgId = orgId' \<and> monitorId = monitorId' \<and> Format t = Format t'"
proof -
  from assms(5) have
    "orgId @ CHR ''/'' # (monitorId @ CHR ''/'' # Format t)
     = orgId' @ CHR ''/'' # (monitorId' @ CHR ''/'' # Format t')"
    by (simp add: filename_def)
  with assms(1,2) have first: "orgId = orgId' \<and>
      monitorId @ CHR ''/'' # Format t = monitorId' @ CHR ''/'' # Format t'"
    by (rule separator_splits_once)
  then have "rev (monitorId @ CHR ''/'' # Format t) = rev (monitorId' @ CHR ''/'' # Format t')"
    by simp
  then have rest: "rev (Format t) @ CHR ''/'' # rev monitorId
             = rev (Format t') @ CHR ''/'' # rev monitorId'"
    by simp
  have "CHR ''/'' \<notin> set (rev (Format t))" and "CHR ''/'' \<notin> set (rev (Format t'))"
    using assms(3,4) by simp_all
  from this rest have "rev (Format t) = rev (Format t') \<and> rev monitorId = rev monitorId'"
    by (rule separator_splits_once)
  with first show ?thesis
    by simp
qed

lemma HandleRequest_returns:
  assumes "sortsByTimestamp sortSlice Parse"
  shows "HandleRequest sortSlice Parse Format client None (Inr allMonitorData) event
      = Returned (''Hello '' @ Name event) None
          (map (\<lambda>(monitorId, dataArray).
                  projr (compileMonitorData sortSlice Parse Format client dataArray))
             (monitorDataMap allMonitorData))"
proof -
  have "\<not> isl (compileMonitorData sortSlice Parse Format client dataArray)"
    if "(monitorId, dataArray) \<in> set (monitorDataMap allMonitorData)"
    for monitorId dataArray
  proof -
    from that have "dataArray \<noteq> []"
      by (rule monitorDataMap_nonempty)
    with assms show ?thesis
      by (rule compileMonitorData_no_panic)
  qed
  then have "\<not> list_ex isl
          (map (\<lambda>(monitorId, dataArray).
                   compileMonitorData sortSlice Parse Format client dataArray)
             (monitorDataMap allMonitorData))"
    unfolding list_ex_iff by auto
  then show ?thesis
    by (simp add: HandleRequest_def Let_def split_def comp_def)
qed

section \<open>Facts about the slots\<close>

text \<open>
  What holds of the slots for every array: a record whose instant is a multiple of
  \<open>FILE_DURATION\<close> since the zero time is in no slot, and so is every record whose
  timestamp does not parse; successive slots start \<open>FILE_DURATION\<close> apart, the first
  at the start bound, and none ends after the end bound; every slot's start has the
  location of the array's first timestamp.
\<close>

lemma no_multiple_inside:
  assumes "FILE_DURATION dvd a" and "FILE_DURATION dvd b"
    and "a - FILE_DURATION < b" and "b < a"
  shows False
proof -
  from assms(1,2) obtain k j where a: "a = FILE_DURATION * k" and b: "b = FILE_DURATION * j"
    unfolding dvd_def by blast
  from assms(3) have "FILE_DURATION * (k - 1) < FILE_DURATION * j"
    by (simp add: a b right_diff_distrib)
  then have "k - 1 < j"
    using FILE_DURATION_pos by (simp add: mult_less_cancel_left_pos)
  moreover from assms(4) have "j < k"
    using FILE_DURATION_pos by (simp add: a b mult_less_cancel_left_pos)
  ultimately show False
    by simp
qed

lemma slotLoop_done:
  "After splitTime roundedUp \<Longrightarrow> slotLoop Parse dataArray roundedUp splitTime = []"
  by (subst slotLoop.simps) simp

lemma slotLoop_round:
  "\<not> After splitTime roundedUp \<Longrightarrow>
   slotLoop Parse dataArray roundedUp splitTime =
     (filter (\<lambda>data. After (parsed Parse (Timestamp data)) (Add splitTime (- FILE_DURATION))
                     \<and> Before (parsed Parse (Timestamp data)) splitTime) dataArray,
      Add splitTime (- FILE_DURATION))
     # slotLoop Parse dataArray roundedUp (Add splitTime FILE_DURATION)"
  by (subst slotLoop.simps) (simp add: Let_def)

lemma slotLoop_drops_aligned:
  "FILE_DURATION dvd wall splitTime \<Longrightarrow> FILE_DURATION dvd instant Parse data
   \<Longrightarrow> (splitDataArray, slotStartTime) \<in> set (slotLoop Parse dataArray roundedUp splitTime)
   \<Longrightarrow> data \<notin> set splitDataArray"
proof (induction Parse dataArray roundedUp splitTime rule: slotLoop.induct)
  case (1 Parse dataArray roundedUp splitTime)
  show ?case
  proof (cases "After splitTime roundedUp")
    case True
    with "1.prems"(3) show ?thesis
      by (simp add: slotLoop_done)
  next
    case False
    from "1.prems"(3) have
      "(splitDataArray, slotStartTime) =
         (filter (\<lambda>data. After (parsed Parse (Timestamp data)) (Add splitTime (- FILE_DURATION))
                        \<and> Before (parsed Parse (Timestamp data)) splitTime) dataArray,
          Add splitTime (- FILE_DURATION))
       \<or> (splitDataArray, slotStartTime)
           \<in> set (slotLoop Parse dataArray roundedUp (Add splitTime FILE_DURATION))"
      by (simp only: slotLoop_round [OF False] set_simps insert_iff)
    then show ?thesis
    proof
      assume "(splitDataArray, slotStartTime) =
         (filter (\<lambda>data. After (parsed Parse (Timestamp data)) (Add splitTime (- FILE_DURATION))
                        \<and> Before (parsed Parse (Timestamp data)) splitTime) dataArray,
          Add splitTime (- FILE_DURATION))"
      then have here: "splitDataArray =
         filter (\<lambda>data. After (parsed Parse (Timestamp data)) (Add splitTime (- FILE_DURATION))
                        \<and> Before (parsed Parse (Timestamp data)) splitTime) dataArray"
        by (simp only: prod.inject)
      show ?thesis
      proof
        assume "data \<in> set splitDataArray"
        then have "After (parsed Parse (Timestamp data)) (Add splitTime (- FILE_DURATION))"
          and "Before (parsed Parse (Timestamp data)) splitTime"
          unfolding here by simp_all
        then have "wall splitTime - FILE_DURATION < instant Parse data"
          and "instant Parse data < wall splitTime"
          by (simp_all add: After_def Before_def wall_Add instant_def)
        with "1.prems"(1,2) show False
          by (rule no_multiple_inside)
      qed
    next
      assume later: "(splitDataArray, slotStartTime)
           \<in> set (slotLoop Parse dataArray roundedUp (Add splitTime FILE_DURATION))"
      have "FILE_DURATION dvd wall (Add splitTime FILE_DURATION)"
        using "1.prems"(1) by (simp add: wall_Add)
      then show ?thesis
        using "1.prems"(2) later by (rule "1.IH" [OF False refl refl])
    qed
  qed
qed

lemma fileSlots_drops_aligned:
  assumes "fileSlots Parse dataArray = Inr slots"
    and "FILE_DURATION dvd instant Parse data"
    and "(splitDataArray, slotStartTime) \<in> set slots"
  shows "data \<notin> set splitDataArray"
proof -
  let ?first = "parsed Parse (Timestamp (dataArray ! 0))"
  let ?last = "parsed Parse (Timestamp (dataArray ! (length dataArray - 1)))"
  let ?splitTime = "Add (roundedDownStartTime FILE_DURATION ?first) FILE_DURATION"
  from assms(1,3) have
    "(splitDataArray, slotStartTime)
       \<in> set (slotLoop Parse dataArray (roundedUpEndTime FILE_DURATION ?last) ?splitTime)"
    by (auto simp add: fileSlots_def Let_def split: if_splits)
  moreover have "wall ?splitTime = FILE_DURATION * (wall ?first div FILE_DURATION) + FILE_DURATION"
    by (simp add: wall_Add wall_roundedDownStartTime [OF FILE_DURATION_pos]
        minus_mod_eq_mult_div)
  then have "FILE_DURATION dvd wall ?splitTime"
    by simp
  ultimately show ?thesis
    using assms(2) slotLoop_drops_aligned by blast
qed

lemma fileSlots_drops_unparseable:
  assumes "fileSlots Parse dataArray = Inr slots"
    and "Parse (Timestamp data) = None"
    and "(splitDataArray, slotStartTime) \<in> set slots"
  shows "data \<notin> set splitDataArray"
proof -
  from assms(2) have "instant Parse data = 0"
    by (simp add: instant_def parsed_def zeroTime_def)
  then have "FILE_DURATION dvd instant Parse data"
    by simp
  then show ?thesis
    using fileSlots_drops_aligned [OF assms(1) _ assms(3)] by blast
qed

lemma slotLoop_starts:
  "successively (\<lambda>a b. wall (snd b) = wall (snd a) + FILE_DURATION)
     (slotLoop Parse dataArray roundedUp splitTime)
   \<and> (\<forall>slot \<in> set (slotLoop Parse dataArray roundedUp splitTime).
        wall splitTime - FILE_DURATION \<le> wall (snd slot)
        \<and> wall (snd slot) + FILE_DURATION \<le> wall roundedUp)
   \<and> (slotLoop Parse dataArray roundedUp splitTime \<noteq> []
        \<longrightarrow> snd (hd (slotLoop Parse dataArray roundedUp splitTime))
            = Add splitTime (- FILE_DURATION))"
proof (induction Parse dataArray roundedUp splitTime rule: slotLoop.induct)
  case (1 Parse dataArray roundedUp splitTime)
  show ?case
  proof (cases "After splitTime roundedUp")
    case True
    then show ?thesis
      by (simp add: slotLoop_done)
  next
    case False
    let ?rest = "slotLoop Parse dataArray roundedUp (Add splitTime FILE_DURATION)"
    let ?slot = "(filter (\<lambda>data. After (parsed Parse (Timestamp data))
                                  (Add splitTime (- FILE_DURATION))
                     \<and> Before (parsed Parse (Timestamp data)) splitTime) dataArray,
                  Add splitTime (- FILE_DURATION))"
    have unfold: "slotLoop Parse dataArray roundedUp splitTime = ?slot # ?rest"
      using False by (rule slotLoop_round)
    note IH = "1.IH" [OF False refl refl]
    from IH have steps: "successively (\<lambda>a b. wall (snd b) = wall (snd a) + FILE_DURATION) ?rest"
      and bounds: "\<forall>slot \<in> set ?rest.
        wall (Add splitTime FILE_DURATION) - FILE_DURATION \<le> wall (snd slot)
        \<and> wall (snd slot) + FILE_DURATION \<le> wall roundedUp"
      and first: "?rest \<noteq> [] \<longrightarrow> snd (hd ?rest) = Add (Add splitTime FILE_DURATION) (- FILE_DURATION)"
      by blast+
    have "successively (\<lambda>a b. wall (snd b) = wall (snd a) + FILE_DURATION) (?slot # ?rest)"
    proof (cases ?rest)
      case Nil
      then show ?thesis by simp
    next
      case (Cons following more)
      with first have "wall (snd following) = wall splitTime"
        by (simp add: wall_Add)
      with steps Cons show ?thesis
        by (simp add: wall_Add)
    qed
    moreover have "wall splitTime \<le> wall roundedUp"
      using False by (simp add: After_def)
    then have "\<forall>slot \<in> set (?slot # ?rest).
        wall splitTime - FILE_DURATION \<le> wall (snd slot)
        \<and> wall (snd slot) + FILE_DURATION \<le> wall roundedUp"
      using bounds FILE_DURATION_pos by (auto simp add: wall_Add)
    ultimately show ?thesis
      by (simp only: unfold list.sel snd_conv list.distinct not_False_eq_True simp_thms)
  qed
qed

lemma fileSlots_plan:
  assumes "fileSlots Parse dataArray = Inr slots"
  shows "successively (\<lambda>a b. wall (snd b) = wall (snd a) + FILE_DURATION) slots
         \<and> (\<forall>slot \<in> set slots.
               wall (snd slot) + FILE_DURATION
                 \<le> wall (roundedUpEndTime FILE_DURATION
                            (parsed Parse (Timestamp (dataArray ! (length dataArray - 1))))))
         \<and> (slots \<noteq> []
               \<longrightarrow> snd (hd slots)
                   = roundedDownStartTime FILE_DURATION (parsed Parse (Timestamp (dataArray ! 0))))"
proof -
  let ?roundedDown = "roundedDownStartTime FILE_DURATION (parsed Parse (Timestamp (dataArray ! 0)))"
  let ?roundedUp = "roundedUpEndTime FILE_DURATION
                      (parsed Parse (Timestamp (dataArray ! (length dataArray - 1))))"
  from assms have slots: "slots = slotLoop Parse dataArray ?roundedUp (Add ?roundedDown FILE_DURATION)"
    by (simp add: fileSlots_def Let_def split: if_splits)
  have "Add (Add ?roundedDown FILE_DURATION) (- FILE_DURATION) = ?roundedDown"
    by (simp add: Add_def)
  with slotLoop_starts [of Parse dataArray ?roundedUp "Add ?roundedDown FILE_DURATION"]
  show ?thesis
    unfolding slots by simp
qed

lemma slotLoop_loc:
  "(splitDataArray, slotStartTime) \<in> set (slotLoop Parse dataArray roundedUp splitTime)
   \<Longrightarrow> loc slotStartTime = loc splitTime"
proof (induction Parse dataArray roundedUp splitTime rule: slotLoop.induct)
  case (1 Parse dataArray roundedUp splitTime)
  show ?case
  proof (cases "After splitTime roundedUp")
    case True
    with "1.prems" show ?thesis
      by (simp add: slotLoop_done)
  next
    case False
    from "1.prems" have
      "(splitDataArray, slotStartTime) =
         (filter (\<lambda>data. After (parsed Parse (Timestamp data)) (Add splitTime (- FILE_DURATION))
                        \<and> Before (parsed Parse (Timestamp data)) splitTime) dataArray,
          Add splitTime (- FILE_DURATION))
       \<or> (splitDataArray, slotStartTime)
           \<in> set (slotLoop Parse dataArray roundedUp (Add splitTime FILE_DURATION))"
      by (simp only: slotLoop_round [OF False] set_simps insert_iff)
    then show ?thesis
    proof
      assume "(splitDataArray, slotStartTime) =
         (filter (\<lambda>data. After (parsed Parse (Timestamp data)) (Add splitTime (- FILE_DURATION))
                        \<and> Before (parsed Parse (Timestamp data)) splitTime) dataArray,
          Add splitTime (- FILE_DURATION))"
      then have "slotStartTime = Add splitTime (- FILE_DURATION)"
        by (simp only: prod.inject)
      then show ?thesis
        by (simp add: loc_Add)
    next
      assume "(splitDataArray, slotStartTime)
           \<in> set (slotLoop Parse dataArray roundedUp (Add splitTime FILE_DURATION))"
      then have "loc slotStartTime = loc (Add splitTime FILE_DURATION)"
        by (rule "1.IH" [OF False refl refl])
      then show ?thesis
        by (simp add: loc_Add)
    qed
  qed
qed

lemma fileSlots_loc:
  assumes "fileSlots Parse dataArray = Inr slots"
    and "(splitDataArray, slotStartTime) \<in> set slots"
  shows "loc slotStartTime = loc (parsed Parse (Timestamp (dataArray ! 0)))"
proof -
  let ?roundedDown = "roundedDownStartTime FILE_DURATION (parsed Parse (Timestamp (dataArray ! 0)))"
  let ?roundedUp = "roundedUpEndTime FILE_DURATION
                      (parsed Parse (Timestamp (dataArray ! (length dataArray - 1))))"
  from assms(1) have "slots = slotLoop Parse dataArray ?roundedUp (Add ?roundedDown FILE_DURATION)"
    by (simp add: fileSlots_def Let_def split: if_splits)
  with assms(2) have "loc slotStartTime = loc (Add ?roundedDown FILE_DURATION)"
    by (simp only: slotLoop_loc)
  then show ?thesis
    by (simp add: loc_Add loc_roundedDownStartTime)
qed

section \<open>The slots at the boundaries\<close>

text \<open>
  C1. The specification assigns every record to exactly one window, the one with
  \<open>start \<le> timestamp < end\<close>, so that a timestamp equal to a window's start belongs to
  that window. The archiver keeps a record for a slot only when its timestamp is strictly
  after the slot's start and strictly before its end. On the specification's own scenario
  (records at 10:00:00, 10:02:30 and 10:07:10) the slots are those of 10:00 and 10:05, and
  the record at 10:00:00, the start of the first slot, is in neither.
\<close>

theorem record_at_slot_start_in_no_slot:
  "slotsText (fileSlots parseRFC3339 (insertionSortLessFunc (timestampLess parseRFC3339)
      [reading ''2024-01-01T10:00:00Z'' ''a'',
       reading ''2024-01-01T10:02:30Z'' ''b'',
       reading ''2024-01-01T10:07:10Z'' ''c'']))
   = Inr [([''2024-01-01T10:02:30Z''], ''2024-01-01T10:00:00Z''),
          ([''2024-01-01T10:07:10Z''], ''2024-01-01T10:05:00Z'')]"
  by code_simp

text \<open>
  C2. The specification's plan has at least one window, and the last window ends at the
  first aligned boundary strictly after the greatest timestamp; a single record at exactly
  10:05:00 gives the one window from 10:05 to 10:10. In the archiver the end bound is the
  greatest timestamp rounded up, which is the timestamp itself when it lies on a
  boundary: for the single record at 10:05:00 the loop runs no round, there is no slot
  and nothing is sent to the store.
\<close>

theorem single_record_on_boundary_no_slot:
  "fileSlots parseRFC3339 (insertionSortLessFunc (timestampLess parseRFC3339)
      [reading ''2024-01-01T10:05:00Z'' ''a'']) = Inr []
   \<and> compileMonitorData insertionSortLessFunc parseRFC3339 formatRFC3339 (\<lambda>input. None)
        [reading ''2024-01-01T10:05:00Z'' ''a''] = Inr []"
  by code_simp

text \<open>
  C4. The specification's windows cover the time from \<open>alignedStart(min)\<close> to
  \<open>alignedStart(max) + D\<close>. For records at 10:02:00 and 10:10:00 that is 10:00 to 10:15;
  the archiver's slots are those of 10:00 and 10:05 and end at 10:10, the greatest
  timestamp itself, so that no slot holds the record at 10:10:00.
\<close>

theorem slots_end_at_maximum_on_boundary:
  "slotsText (fileSlots parseRFC3339 (insertionSortLessFunc (timestampLess parseRFC3339)
      [reading ''2024-01-01T10:02:00Z'' ''a'',
       reading ''2024-01-01T10:10:00Z'' ''b'']))
   = Inr [([''2024-01-01T10:02:00Z''], ''2024-01-01T10:00:00Z''),
          ([], ''2024-01-01T10:05:00Z'')]
   \<and> formatRFC3339 (Add (alignedStart FILE_DURATION (parsed parseRFC3339 ''2024-01-01T10:10:00Z''))
                       FILE_DURATION)
       = ''2024-01-01T10:15:00Z''"
  by code_simp

text \<open>
  C6. The specification rejects a record whose timestamp does not parse. The archiver
  drops the error of \<open>time.Parse\<close> and goes on with the zero time: a batch whose only
  record has the timestamp \<open>not-a-time\<close> ends without an error and without a file, and
  beside a record of 00:07:00 on January 1 of year 1 the unparseable record is sorted
  first, makes the slots start at the zero time, and is in no slot.
\<close>

theorem unparseable_timestamp_no_error:
  "parseRFC3339 ''not-a-time'' = None
   \<and> compileMonitorData insertionSortLessFunc parseRFC3339 formatRFC3339 (\<lambda>input. None)
        [reading ''not-a-time'' ''a''] = Inr []
   \<and> slotsText (fileSlots parseRFC3339 (insertionSortLessFunc (timestampLess parseRFC3339)
        [reading ''0001-01-01T00:07:00Z'' ''b'', reading ''not-a-time'' ''a'']))
     = Inr [([], ''0001-01-01T00:00:00Z''),
            ([''0001-01-01T00:07:00Z''], ''0001-01-01T00:05:00Z'')]"
  by code_simp

section \<open>Empty slots\<close>

text \<open>
  C8. For a slot with no record \<open>compileAndStoreinS3\<close> builds no file and sends nothing
  to the store, and every request that a run of \<open>compileMonitorData\<close> sends holds at
  least one entry.
\<close>

theorem empty_slot_no_file:
  "compileAndStoreinS3 Format client [] slotStartTime = NoFile
   \<and> (\<forall>results input.
         compileMonitorData sortSlice Parse Format client dataArray = Inr results
         \<longrightarrow> Some input \<in> set (map sent results)
         \<longrightarrow> (\<exists>entries. memberNamed ''entries'' (Body input) = Some (JArray entries)
                        \<and> entries \<noteq> []))"
proof (intro conjI allI impI)
  show "compileAndStoreinS3 Format client [] slotStartTime = NoFile"
    by (simp add: compileAndStoreinS3_def)
next
  fix results input
  assume run: "compileMonitorData sortSlice Parse Format client dataArray = Inr results"
    and input: "Some input \<in> set (map sent results)"
  from run obtain slots where
    "results = map (\<lambda>(splitDataArray, slotStartTime).
                   compileAndStoreinS3 Format client splitDataArray slotStartTime) slots"
    by (rule compileMonitorData_Inr)
  with input obtain splitDataArray slotStartTime where
    "sent (compileAndStoreinS3 Format client splitDataArray slotStartTime) = Some input"
    by auto
  then have "splitDataArray \<noteq> []"
    and "Body input = marshalCompiledMonitorData
           \<lparr>Compiled_MonitorId = MonitorId (hd splitDataArray),
            Compiled_OrgId = OrgId (hd splitDataArray),
            StartTime = Format slotStartTime,
            Entries = map (\<lambda>data. \<lparr>Entry_Timestamp = Timestamp data,
                                     Entry_Values = Values data\<rparr>) splitDataArray\<rparr>"
    by (auto simp add: sent_compileAndStoreinS3 split: if_splits)
  then show "\<exists>entries. memberNamed ''entries'' (Body input) = Some (JArray entries)
                        \<and> entries \<noteq> []"
    by (simp add: marshalCompiledMonitorData_def)
qed

text \<open>
  Records at 10:02:00 and 10:12:00: the slot of 10:05 is empty and gets no request.
\<close>

theorem empty_slot_no_file_witness:
  "compileAndStoreinS3 formatRFC3339 (\<lambda>input. None) ([] :: string MonitorData list)
       \<lparr>wall = 63839700300000000000, loc = 0\<rparr> = NoFile
   \<and> map sent (projr (compileMonitorData insertionSortLessFunc parseRFC3339 formatRFC3339
                         (\<lambda>input. None)
                         [reading ''2024-01-01T10:02:00Z'' ''a'',
                          reading ''2024-01-01T10:12:00Z'' ''b'']))
     = [Some \<lparr>Bucket = ''lumi-monitor-data'',
               Key = ''org1/m1/2024-01-01T10:00:00Z-data.json'',
               Body = JObject
                 [(''monitorId'', JString ''m1''), (''orgId'', JString ''org1''),
                  (''startTime'', JString ''2024-01-01T10:00:00Z''),
                  (''entries'', JArray
                     [JObject [(''timestamp'', JString ''2024-01-01T10:02:00Z''),
                               (''monitorId'', JPayload ''a'')]])]\<rparr>,
        None,
        Some \<lparr>Bucket = ''lumi-monitor-data'',
               Key = ''org1/m1/2024-01-01T10:10:00Z-data.json'',
               Body = JObject
                 [(''monitorId'', JString ''m1''), (''orgId'', JString ''org1''),
                  (''startTime'', JString ''2024-01-01T10:10:00Z''),
                  (''entries'', JArray
                     [JObject [(''timestamp'', JString ''2024-01-01T10:12:00Z''),
                               (''monitorId'', JPayload ''b'')]])]\<rparr>]
   \<and> (\<exists>entries.
         memberNamed ''entries''
           (Body \<lparr>Bucket = ''lumi-monitor-data'',
                   Key = ''org1/m1/2024-01-01T10:00:00Z-data.json'',
                   Body = JObject
                     [(''monitorId'', JString ''m1''), (''orgId'', JString ''org1''),
                      (''startTime'', JString ''2024-01-01T10:00:00Z''),
                      (''entries'', JArray
                         [JObject [(''timestamp'', JString ''2024-01-01T10:02:00Z''),
                                   (''monitorId'', JPayload ''a'')]])]\<rparr>)
           = Some (JArray entries)
         \<and> entries \<noteq> [])"
proof -
  let ?run = "compileMonitorData insertionSortLessFunc parseRFC3339 formatRFC3339
                (\<lambda>input. None)
                [reading ''2024-01-01T10:02:00Z'' ''a'', reading ''2024-01-01T10:12:00Z'' ''b'']"
  let ?first = "\<lparr>Bucket = ''lumi-monitor-data'',
                   Key = ''org1/m1/2024-01-01T10:00:00Z-data.json'',
                   Body = JObject
                     [(''monitorId'', JString ''m1''), (''orgId'', JString ''org1''),
                      (''startTime'', JString ''2024-01-01T10:00:00Z''),
                      (''entries'', JArray
                         [JObject [(''timestamp'', JString ''2024-01-01T10:02:00Z''),
                                   (''monitorId'', JPayload ''a'')]])]\<rparr>"
  let ?second = "\<lparr>Bucket = ''lumi-monitor-data'',
               Key = ''org1/m1/2024-01-01T10:10:00Z-data.json'',
               Body = JObject
                 [(''monitorId'', JString ''m1''), (''orgId'', JString ''org1''),
                  (''startTime'', JString ''2024-01-01T10:10:00Z''),
                  (''entries'', JArray
                     [JObject [(''timestamp'', JString ''2024-01-01T10:12:00Z''),
                               (''monitorId'', JPayload ''b'')]])]\<rparr>"
  have run: "?run = Inr [Archived ?first, NoFile, Archived ?second]"
    by code_simp
  have "Some ?first \<in> set (map sent [Archived ?first, NoFile, Archived ?second])"
    by simp
  with run empty_slot_no_file
         [of formatRFC3339 "\<lambda>input. None" "\<lparr>wall = 63839700300000000000, loc = 0\<rparr>"
             insertionSortLessFunc parseRFC3339
             "[reading ''2024-01-01T10:02:00Z'' ''a'', reading ''2024-01-01T10:12:00Z'' ''b'']"]
  show ?thesis
    by (simp del: memberNamed.simps)
qed

section \<open>The JSON of an entry\<close>

text \<open>
  C10. In every file that \<open>compileAndStoreinS3\<close> encodes and sends, each entry is an
  object with the members \<open>timestamp\<close> and \<open>monitorId\<close>, in this order: the record's
  payload stands under the name \<open>monitorId\<close>, which the tag of the field \<open>Values\<close> of
  \<open>Entry\<close> gives, and no member is named \<open>values\<close>.
\<close>

theorem entry_values_under_monitorId:
  assumes "sent (compileAndStoreinS3 Format client splitDataArray slotStartTime) = Some input"
  shows "\<exists>entries.
           memberNamed ''entries'' (Body input) = Some (JArray entries)
           \<and> length entries = length splitDataArray
           \<and> (\<forall>i < length splitDataArray.
                 memberNames (entries ! i) = [''timestamp'', ''monitorId'']
                 \<and> memberNamed ''timestamp'' (entries ! i)
                     = Some (JString (Timestamp (splitDataArray ! i)))
                 \<and> memberNamed ''monitorId'' (entries ! i)
                     = Some (JPayload (Values (splitDataArray ! i)))
                 \<and> memberNamed ''values'' (entries ! i) = None)"
proof -
  from assms have
    "Body input = marshalCompiledMonitorData
           \<lparr>Compiled_MonitorId = MonitorId (hd splitDataArray),
            Compiled_OrgId = OrgId (hd splitDataArray),
            StartTime = Format slotStartTime,
            Entries = map (\<lambda>data. \<lparr>Entry_Timestamp = Timestamp data,
                                     Entry_Values = Values data\<rparr>) splitDataArray\<rparr>"
    by (auto simp add: sent_compileAndStoreinS3 split: if_splits)
  then show ?thesis
    by (simp add: marshalCompiledMonitorData_def marshalEntry_def)
qed

theorem entry_values_under_monitorId_witness:
  "sent (compileAndStoreinS3 formatRFC3339 (\<lambda>input. None)
           [reading ''2024-01-01T10:02:00Z'' ''a'']
           \<lparr>wall = 63839700000000000000, loc = 0\<rparr>)
     = Some \<lparr>Bucket = ''lumi-monitor-data'',
              Key = ''org1/m1/2024-01-01T10:00:00Z-data.json'',
              Body = JObject
                [(''monitorId'', JString ''m1''), (''orgId'', JString ''org1''),
                 (''startTime'', JString ''2024-01-01T10:00:00Z''),
                 (''entries'', JArray
                    [JObject [(''timestamp'', JString ''2024-01-01T10:02:00Z''),
                              (''monitorId'', JPayload ''a'')]])]\<rparr>
   \<and> (\<exists>entries.
         memberNamed ''entries''
           (JObject
                [(''monitorId'', JString ''m1''), (''orgId'', JString ''org1''),
                 (''startTime'', JString ''2024-01-01T10:00:00Z''),
                 (''entries'', JArray
                    [JObject [(''timestamp'', JString ''2024-01-01T10:02:00Z''),
                              (''monitorId'', JPayload ''a'')]])]) = Some (JArray entries)
         \<and> length entries = 1
         \<and> memberNames (entries ! 0) = [''timestamp'', ''monitorId'']
         \<and> memberNamed ''monitorId'' (entries ! 0) = Some (JPayload ''a'')
         \<and> memberNamed ''values'' (entries ! 0) = None)"
proof -
  let ?input = "\<lparr>Bucket = ''lumi-monitor-data'',
              Key = ''org1/m1/2024-01-01T10:00:00Z-data.json'',
              Body = JObject
                [(''monitorId'', JString ''m1''), (''orgId'', JString ''org1''),
                 (''startTime'', JString ''2024-01-01T10:00:00Z''),
                 (''entries'', JArray
                    [JObject [(''timestamp'', JString ''2024-01-01T10:02:00Z''),
                              (''monitorId'', JPayload ''a'')]])]\<rparr>"
  have run: "sent (compileAndStoreinS3 formatRFC3339 (\<lambda>input. None)
           [reading ''2024-01-01T10:02:00Z'' ''a'']
           \<lparr>wall = 63839700000000000000, loc = 0\<rparr>) = Some ?input"
    by code_simp
  from entry_values_under_monitorId [OF run] obtain entries where
    "memberNamed ''entries'' (Body ?input) = Some (JArray entries)"
    "length entries = 1"
    "memberNames (entries ! 0) = [''timestamp'', ''monitorId'']"
    "memberNamed ''monitorId'' (entries ! 0)
       = Some (JPayload (Values (reading ''2024-01-01T10:02:00Z'' ''a'')))"
    "memberNamed ''values'' (entries ! 0) = None"
    by auto
  then show ?thesis
    using run by (simp add: reading_def)
qed

section \<open>The key of a file\<close>

text \<open>
  C9, as the specification states it: the key is a function of the owner, the entity and
  the window start alone, two invocations that process the same window of the same entity
  produce the same key, and the key is collision-free for each pair of entity and window.
  The key is the concatenation \<open>orgId + "/" + monitorId + "/" + start + "-data.json"\<close>
  with nothing escaped: organisation \<open>a\<close> with monitor \<open>b/c\<close> and organisation \<open>a/b\<close>
  with monitor \<open>c\<close> get the same key for the slot of 10:00. And \<open>start\<close> is the text of
  the slot's start in the location of the batch's earliest record: a run on the record of
  10:02:00Z and a run on that record and one of 11:01:00+01:00 (which is 10:01:00Z) both
  have the one slot that starts at the instant 10:00:00Z, and send it under the keys
  \<open>...10:00:00Z-data.json\<close> and \<open>...11:00:00+01:00-data.json\<close>.
\<close>

theorem filename_collision_and_zone_counterexample:
  "map_option Key (sent (compileAndStoreinS3 formatRFC3339 (\<lambda>input. None)
       [\<lparr>MonitorId = ''b/c'', Timestamp = ''2024-01-01T10:02:00Z'', OrgId = ''a'',
         Values = ''x''\<rparr>]
       \<lparr>wall = 63839700000000000000, loc = 0\<rparr>))
     = Some ''a/b/c/2024-01-01T10:00:00Z-data.json''
   \<and> map_option Key (sent (compileAndStoreinS3 formatRFC3339 (\<lambda>input. None)
       [\<lparr>MonitorId = ''c'', Timestamp = ''2024-01-01T10:02:00Z'', OrgId = ''a/b'',
         Values = ''y''\<rparr>]
       \<lparr>wall = 63839700000000000000, loc = 0\<rparr>))
     = Some ''a/b/c/2024-01-01T10:00:00Z-data.json''
   \<and> map (wall \<circ> snd) (projr (fileSlots parseRFC3339
         (insertionSortLessFunc (timestampLess parseRFC3339)
            [reading ''2024-01-01T10:02:00Z'' ''a''])))
     = [63839700000000000000]
   \<and> map (wall \<circ> snd) (projr (fileSlots parseRFC3339
         (insertionSortLessFunc (timestampLess parseRFC3339)
            [reading ''2024-01-01T10:02:00Z'' ''a'',
             reading ''2024-01-01T11:01:00+01:00'' ''b''])))
     = [63839700000000000000]
   \<and> map (map_option Key \<circ> sent)
         (projr (compileMonitorData insertionSortLessFunc parseRFC3339 formatRFC3339
                   (\<lambda>input. None) [reading ''2024-01-01T10:02:00Z'' ''a'']))
     = [Some ''org1/m1/2024-01-01T10:00:00Z-data.json'']
   \<and> map (map_option Key \<circ> sent)
         (projr (compileMonitorData insertionSortLessFunc parseRFC3339 formatRFC3339
                   (\<lambda>input. None)
                   [reading ''2024-01-01T10:02:00Z'' ''a'',
                    reading ''2024-01-01T11:01:00+01:00'' ''b'']))
     = [Some ''org1/m1/2024-01-01T11:00:00+01:00-data.json'']"
  by code_simp

text \<open>
  C9, amended. The key that \<open>compileAndStoreinS3\<close> sends is \<open>filename\<close> of the first
  record's \<open>OrgId\<close> and \<open>MonitorId\<close> and of the slot's start, a time with a location,
  and of nothing else. The location of every slot's start is that of the array's first
  (earliest) timestamp: two runs send the same key for slots that start at the same
  instant and whose first records agree in \<open>OrgId\<close> and \<open>MonitorId\<close> when the earliest
  timestamps of the two arrays have the same offset. When the organisation ids hold no
  \<open>/\<close> (the RFC 3339 text of a time holds none), two keys are different as soon as the
  organisation ids, the monitor ids or the texts of the slot starts are. (The arrays are
  taken as \<open>sort.Slice\<close> left them.)
\<close>

theorem filename_of_first_record_slot_and_zone:
  "((splitDataArray :: 'v MonitorData list) \<noteq> []
      \<longrightarrow> map_option Key (sent (compileAndStoreinS3 Format client splitDataArray slotStartTime))
          = Some (filename Format (OrgId (splitDataArray ! 0)) (MonitorId (splitDataArray ! 0))
                    slotStartTime))
   \<and> (\<forall>slots slots' splitArray slotStart splitArray' slotStart'.
         fileSlots Parse (dataArray :: 'v MonitorData list) = Inr slots
         \<and> fileSlots Parse (dataArray' :: 'v MonitorData list) = Inr slots'
         \<and> (splitArray, slotStart) \<in> set slots \<and> (splitArray', slotStart') \<in> set slots'
         \<and> splitArray \<noteq> [] \<and> splitArray' \<noteq> []
         \<and> OrgId (splitArray ! 0) = OrgId (splitArray' ! 0)
         \<and> MonitorId (splitArray ! 0) = MonitorId (splitArray' ! 0)
         \<and> wall slotStart = wall slotStart'
         \<and> loc (parsed Parse (Timestamp (dataArray ! 0)))
             = loc (parsed Parse (Timestamp (dataArray' ! 0)))
         \<longrightarrow> map_option Key (sent (compileAndStoreinS3 Format client splitArray slotStart))
             = map_option Key (sent (compileAndStoreinS3 Format client' splitArray' slotStart')))
   \<and> (CHR ''/'' \<notin> set orgId \<and> CHR ''/'' \<notin> set orgId'
        \<and> CHR ''/'' \<notin> set (Format t) \<and> CHR ''/'' \<notin> set (Format t')
        \<and> (orgId \<noteq> orgId' \<or> monitorId \<noteq> monitorId' \<or> Format t \<noteq> Format t')
      \<longrightarrow> filename Format orgId monitorId t \<noteq> filename Format orgId' monitorId' t')"
proof (intro conjI allI impI)
  assume "splitDataArray \<noteq> []"
  then show "map_option Key (sent (compileAndStoreinS3 Format client splitDataArray slotStartTime))
          = Some (filename Format (OrgId (splitDataArray ! 0)) (MonitorId (splitDataArray ! 0))
                    slotStartTime)"
    by (simp add: sent_compileAndStoreinS3 hd_conv_nth)
next
  fix slots slots' :: "('v MonitorData list \<times> Time) list"
  fix splitArray splitArray' :: "'v MonitorData list"
  fix slotStart slotStart' :: Time
  assume runs: "fileSlots Parse dataArray = Inr slots \<and> fileSlots Parse dataArray' = Inr slots'
         \<and> (splitArray, slotStart) \<in> set slots \<and> (splitArray', slotStart') \<in> set slots'
         \<and> splitArray \<noteq> [] \<and> splitArray' \<noteq> []
         \<and> OrgId (splitArray ! 0) = OrgId (splitArray' ! 0)
         \<and> MonitorId (splitArray ! 0) = MonitorId (splitArray' ! 0)
         \<and> wall slotStart = wall slotStart'
         \<and> loc (parsed Parse (Timestamp (dataArray ! 0)))
             = loc (parsed Parse (Timestamp (dataArray' ! 0)))"
  then have "loc slotStart = loc (parsed Parse (Timestamp (dataArray ! 0)))"
    and "loc slotStart' = loc (parsed Parse (Timestamp (dataArray' ! 0)))"
    using fileSlots_loc by blast+
  with runs have "wall slotStart = wall slotStart'" and "loc slotStart = loc slotStart'"
    by simp_all
  then have same: "slotStart = slotStart'"
    by simp
  from runs have "OrgId (hd splitArray) = OrgId (hd splitArray')"
    and "MonitorId (hd splitArray) = MonitorId (hd splitArray')"
    and "splitArray \<noteq> []" and "splitArray' \<noteq> []"
    by (simp_all add: hd_conv_nth)
  then show "map_option Key (sent (compileAndStoreinS3 Format client splitArray slotStart))
             = map_option Key (sent (compileAndStoreinS3 Format client' splitArray' slotStart'))"
    by (simp add: sent_compileAndStoreinS3 same)
next
  assume "CHR ''/'' \<notin> set orgId \<and> CHR ''/'' \<notin> set orgId'
        \<and> CHR ''/'' \<notin> set (Format t) \<and> CHR ''/'' \<notin> set (Format t')
        \<and> (orgId \<noteq> orgId' \<or> monitorId \<noteq> monitorId' \<or> Format t \<noteq> Format t')"
  then show "filename Format orgId monitorId t \<noteq> filename Format orgId' monitorId' t'"
    using filename_inject [of orgId orgId' Format t t' monitorId monitorId'] by blast
qed

text \<open>
  Two runs in UTC, on the record of 10:02:00 and on the records of 10:01:00 and 10:02:00:
  both send the slot of 10:00 under \<open>org1/m1/2024-01-01T10:00:00Z-data.json\<close>, whatever
  the store answers; another monitor or another slot gets another key.
\<close>

theorem filename_of_first_record_slot_and_zone_witness:
  "map_option Key (sent (compileAndStoreinS3 formatRFC3339 (\<lambda>input. None)
       [reading ''2024-01-01T10:02:00Z'' ''a'', reading ''2024-01-01T10:03:00Z'' ''b'']
       \<lparr>wall = 63839700000000000000, loc = 0\<rparr>))
     = Some (filename formatRFC3339 ''org1'' ''m1'' \<lparr>wall = 63839700000000000000, loc = 0\<rparr>)
   \<and> filename formatRFC3339 ''org1'' ''m1'' \<lparr>wall = 63839700000000000000, loc = 0\<rparr>
       = ''org1/m1/2024-01-01T10:00:00Z-data.json''
   \<and> fileSlots parseRFC3339 [reading ''2024-01-01T10:02:00Z'' ''a'']
       = Inr [([reading ''2024-01-01T10:02:00Z'' ''a''],
               \<lparr>wall = 63839700000000000000, loc = 0\<rparr>)]
   \<and> fileSlots parseRFC3339
         [reading ''2024-01-01T10:01:00Z'' ''b'', reading ''2024-01-01T10:02:00Z'' ''a'']
       = Inr [([reading ''2024-01-01T10:01:00Z'' ''b'', reading ''2024-01-01T10:02:00Z'' ''a''],
               \<lparr>wall = 63839700000000000000, loc = 0\<rparr>)]
   \<and> map_option Key (sent (compileAndStoreinS3 formatRFC3339 (\<lambda>input. None)
         [reading ''2024-01-01T10:02:00Z'' ''a'']
         \<lparr>wall = 63839700000000000000, loc = 0\<rparr>))
       = map_option Key (sent (compileAndStoreinS3 formatRFC3339 (\<lambda>input. Some ''quota exceeded'')
         [reading ''2024-01-01T10:01:00Z'' ''b'', reading ''2024-01-01T10:02:00Z'' ''a'']
         \<lparr>wall = 63839700000000000000, loc = 0\<rparr>))
   \<and> filename formatRFC3339 ''org1'' ''m1'' \<lparr>wall = 63839700000000000000, loc = 0\<rparr>
       \<noteq> filename formatRFC3339 ''org1'' ''m2'' \<lparr>wall = 63839700000000000000, loc = 0\<rparr>
   \<and> filename formatRFC3339 ''org1'' ''m1'' \<lparr>wall = 63839700000000000000, loc = 0\<rparr>
       \<noteq> filename formatRFC3339 ''org1'' ''m1'' \<lparr>wall = 63839700300000000000, loc = 0\<rparr>"
proof -
  let ?t = "\<lparr>wall = 63839700000000000000, loc = 0\<rparr>"
  let ?u = "\<lparr>wall = 63839700300000000000, loc = 0\<rparr>"
  let ?one = "[reading ''2024-01-01T10:02:00Z'' ''a'']"
  let ?two = "[reading ''2024-01-01T10:01:00Z'' ''b'', reading ''2024-01-01T10:02:00Z'' ''a'']"
  have ft: "formatRFC3339 ?t = ''2024-01-01T10:00:00Z''"
    by code_simp
  have fu: "formatRFC3339 ?u = ''2024-01-01T10:05:00Z''"
    by code_simp
  note inst = filename_of_first_record_slot_and_zone [where Format = formatRFC3339
      and Parse = parseRFC3339 and dataArray = ?one and dataArray' = ?two
      and orgId = "''org1''" and orgId' = "''org1''" and monitorId = "''m1''" and t = ?t]
  have first: "map_option Key (sent (compileAndStoreinS3 formatRFC3339 (\<lambda>input. None)
       [reading ''2024-01-01T10:02:00Z'' ''a'', reading ''2024-01-01T10:03:00Z'' ''b''] ?t))
     = Some (filename formatRFC3339 ''org1'' ''m1'' ?t)"
    using inst [where splitDataArray =
        "[reading ''2024-01-01T10:02:00Z'' ''a'', reading ''2024-01-01T10:03:00Z'' ''b'']"
        and client = "\<lambda>input. None" and slotStartTime = ?t, THEN conjunct1]
    by (simp add: reading_def)
  have name: "filename formatRFC3339 ''org1'' ''m1'' ?t = ''org1/m1/2024-01-01T10:00:00Z-data.json''"
    by (simp add: filename_def ft)
  have slots: "fileSlots parseRFC3339 ?one = Inr [(?one, ?t)]"
    by code_simp
  have slots': "fileSlots parseRFC3339 ?two = Inr [(?two, ?t)]"
    by code_simp
  have zone: "loc (parsed parseRFC3339 (Timestamp (?one ! 0)))
              = loc (parsed parseRFC3339 (Timestamp (?two ! 0)))"
    by code_simp
  have ids: "OrgId (?one ! 0) = OrgId (?two ! 0)" "MonitorId (?one ! 0) = MonitorId (?two ! 0)"
    by (simp_all add: reading_def)
  have members: "(?one, ?t) \<in> set [(?one, ?t)]" "(?two, ?t) \<in> set [(?two, ?t)]"
    by simp_all
  have filled: "?one \<noteq> []" "?two \<noteq> []"
    by simp_all
  have runs: "map_option Key (sent (compileAndStoreinS3 formatRFC3339 (\<lambda>input. None) ?one ?t))
       = map_option Key (sent (compileAndStoreinS3 formatRFC3339
                                 (\<lambda>input. Some ''quota exceeded'') ?two ?t))"
    using inst [where client = "\<lambda>input. None" and client' = "\<lambda>input. Some ''quota exceeded''",
                THEN conjunct2, THEN conjunct1, rule_format,
                of "[(?one, ?t)]" "[(?two, ?t)]" ?one ?t ?two ?t]
      slots slots' members filled ids zone
    by blast
  have monitors: "filename formatRFC3339 ''org1'' ''m1'' ?t \<noteq> filename formatRFC3339 ''org1'' ''m2'' ?t"
    using inst [where monitorId' = "''m2''" and t' = ?t, THEN conjunct2, THEN conjunct2]
    by (simp add: ft)
  have starts: "filename formatRFC3339 ''org1'' ''m1'' ?t \<noteq> filename formatRFC3339 ''org1'' ''m1'' ?u"
    using inst [where monitorId' = "''m1''" and t' = ?u, THEN conjunct2, THEN conjunct2]
    by (simp add: ft fu)
  from first name slots slots' runs monitors starts show ?thesis
    by blast
qed

section \<open>Errors of the store\<close>

text \<open>
  C3, as the specification states it: an error of a persist call is surfaced to the
  caller, in a result that lists the failures. The handler has no such result: with a
  store that refuses the one file of the batch, the call logs the error and the handler
  returns \<open>Hello ops\<close> and no error, exactly what it returns when the store accepts the
  file.
\<close>

theorem persist_error_not_returned_counterexample:
  "HandleRequest insertionSortLessFunc parseRFC3339 formatRFC3339
       (\<lambda>input. Some ''quota exceeded'') None
       (Inr [reading ''2024-01-01T10:02:00Z'' ''a'']) \<lparr>Name = ''ops''\<rparr>
     = Returned ''Hello ops'' None
         [[UploadFailed
             \<lparr>Bucket = ''lumi-monitor-data'',
              Key = ''org1/m1/2024-01-01T10:00:00Z-data.json'',
              Body = JObject
                [(''monitorId'', JString ''m1''), (''orgId'', JString ''org1''),
                 (''startTime'', JString ''2024-01-01T10:00:00Z''),
                 (''entries'', JArray
                    [JObject [(''timestamp'', JString ''2024-01-01T10:02:00Z''),
                              (''monitorId'', JPayload ''a'')]])]\<rparr>
             ''quota exceeded'']]
   \<and> returned (HandleRequest insertionSortLessFunc parseRFC3339 formatRFC3339
                 (\<lambda>input. Some ''quota exceeded'') None
                 (Inr [reading ''2024-01-01T10:02:00Z'' ''a'']) \<lparr>Name = ''ops''\<rparr>)
     = returned (HandleRequest insertionSortLessFunc parseRFC3339 formatRFC3339
                 (\<lambda>input. None) None
                 (Inr [reading ''2024-01-01T10:02:00Z'' ''a'']) \<lparr>Name = ''ops''\<rparr>)"
  by code_simp

text \<open>
  C3, amended. After a fetch that returned records, the handler returns
  \<open>"Hello " + event.Name\<close> and a nil error whatever the store answers, and the requests
  sent to the store, monitor by monitor and slot by slot, are the same whatever the store
  answers: an error of one persist call is logged by that call and neither reaches the
  caller nor stops another slot or monitor. (\<open>sortsByTimestamp\<close> is the promise of
  \<open>sort.Slice\<close>.)
\<close>

theorem persist_error_not_returned:
  assumes "sortsByTimestamp sortSlice Parse"
  shows "returned (HandleRequest sortSlice Parse Format client None (Inr allMonitorData) event)
           = Some (''Hello '' @ Name event, None)
         \<and> map (map sent)
              (outcomes (HandleRequest sortSlice Parse Format client None
                           (Inr allMonitorData) event))
           = map (map sent)
               (outcomes (HandleRequest sortSlice Parse Format client' None
                            (Inr allMonitorData) event))"
proof
  show "returned (HandleRequest sortSlice Parse Format client None (Inr allMonitorData) event)
           = Some (''Hello '' @ Name event, None)"
    by (simp only: HandleRequest_returns [OF assms] returned.simps)
next
  have "map (\<lambda>group. map sent
               (projr (compileMonitorData sortSlice Parse Format client (snd group))))
          (monitorDataMap allMonitorData)
        = map (\<lambda>group. map sent
               (projr (compileMonitorData sortSlice Parse Format client' (snd group))))
          (monitorDataMap allMonitorData)"
    by (rule map_cong [OF refl]) (rule sent_whatever_client)
  then show "map (map sent)
              (outcomes (HandleRequest sortSlice Parse Format client None
                           (Inr allMonitorData) event))
           = map (map sent)
               (outcomes (HandleRequest sortSlice Parse Format client' None
                            (Inr allMonitorData) event))"
    by (simp only: HandleRequest_returns [OF assms] outcomes.simps map_map comp_def split_def)
qed

text \<open>
  Two monitors and three records; the store refuses the file of monitor \<open>m1\<close> for the
  slot of 10:00. All three files are sent and the handler returns \<open>Hello ops\<close>.
\<close>

theorem persist_error_not_returned_witness:
  "sortsByTimestamp insertionSortLessFunc parseRFC3339
   \<and> returned (HandleRequest insertionSortLessFunc parseRFC3339 formatRFC3339
                 (\<lambda>input. if Key input = ''org1/m1/2024-01-01T10:00:00Z-data.json''
                           then Some ''quota exceeded'' else None)
                 None
                 (Inr [reading ''2024-01-01T10:02:00Z'' ''a'',
                       \<lparr>MonitorId = ''m2'', Timestamp = ''2024-01-01T10:03:00Z'',
                        OrgId = ''org1'', Values = ''b''\<rparr>,
                       reading ''2024-01-01T10:07:00Z'' ''c''])
                 \<lparr>Name = ''ops''\<rparr>)
     = Some (''Hello ops'', None)
   \<and> map (map (map_option Key \<circ> sent))
       (outcomes (HandleRequest insertionSortLessFunc parseRFC3339 formatRFC3339
                 (\<lambda>input. if Key input = ''org1/m1/2024-01-01T10:00:00Z-data.json''
                           then Some ''quota exceeded'' else None)
                 None
                 (Inr [reading ''2024-01-01T10:02:00Z'' ''a'',
                       \<lparr>MonitorId = ''m2'', Timestamp = ''2024-01-01T10:03:00Z'',
                        OrgId = ''org1'', Values = ''b''\<rparr>,
                       reading ''2024-01-01T10:07:00Z'' ''c''])
                 \<lparr>Name = ''ops''\<rparr>))
     = [[Some ''org1/m1/2024-01-01T10:00:00Z-data.json'',
         Some ''org1/m1/2024-01-01T10:05:00Z-data.json''],
        [Some ''org1/m2/2024-01-01T10:00:00Z-data.json'']]"
proof -
  let ?failing = "\<lambda>input :: string PutObjectInput.
                    if Key input = ''org1/m1/2024-01-01T10:00:00Z-data.json''
                    then Some ''quota exceeded'' else None"
  let ?records = "[reading ''2024-01-01T10:02:00Z'' ''a'',
                   \<lparr>MonitorId = ''m2'', Timestamp = ''2024-01-01T10:03:00Z'',
                    OrgId = ''org1'', Values = ''b''\<rparr>,
                   reading ''2024-01-01T10:07:00Z'' ''c'']"
  have sorts: "sortsByTimestamp insertionSortLessFunc parseRFC3339"
    by (rule insertionSortLessFunc_sorts)
  note inst = persist_error_not_returned [OF sorts, of formatRFC3339 ?failing ?records
      "\<lparr>Name = ''ops''\<rparr>" "\<lambda>input. None"]
  have ok: "map (map (map_option Key \<circ> sent))
       (outcomes (HandleRequest insertionSortLessFunc parseRFC3339 formatRFC3339
                 (\<lambda>input. None) None (Inr ?records) \<lparr>Name = ''ops''\<rparr>))
     = [[Some ''org1/m1/2024-01-01T10:00:00Z-data.json'',
         Some ''org1/m1/2024-01-01T10:05:00Z-data.json''],
        [Some ''org1/m2/2024-01-01T10:00:00Z-data.json'']]"
    by code_simp
  have "map (map (map_option Key \<circ> sent))
       (outcomes (HandleRequest insertionSortLessFunc parseRFC3339 formatRFC3339
                 ?failing None (Inr ?records) \<lparr>Name = ''ops''\<rparr>))
     = map (map (map_option Key)) (map (map sent)
       (outcomes (HandleRequest insertionSortLessFunc parseRFC3339 formatRFC3339
                 ?failing None (Inr ?records) \<lparr>Name = ''ops''\<rparr>)))"
    by simp
  also have "\<dots> = map (map (map_option Key)) (map (map sent)
       (outcomes (HandleRequest insertionSortLessFunc parseRFC3339 formatRFC3339
                 (\<lambda>input. None) None (Inr ?records) \<lparr>Name = ''ops''\<rparr>)))"
    using inst by simp
  also have "\<dots> = [[Some ''org1/m1/2024-01-01T10:00:00Z-data.json'',
         Some ''org1/m1/2024-01-01T10:05:00Z-data.json''],
        [Some ''org1/m2/2024-01-01T10:00:00Z-data.json'']]"
    using ok by simp
  finally show ?thesis
    using sorts inst by simp
qed

section \<open>The order of the entries\<close>

text \<open>
  C5, as the specification states it: every permutation of the input gives the same
  entries, ties being broken by the input order. Two records with the same timestamp
  keep the order of the input (on two elements \<open>sort.Slice\<close> is the insertion sort, which
  moves nothing here), so the two orders of the input give two different files.
\<close>

theorem tie_order_follows_input_counterexample:
  "mset [reading ''2024-01-01T10:01:00Z'' ''b'', reading ''2024-01-01T10:01:00Z'' ''a'']
     = mset [reading ''2024-01-01T10:01:00Z'' ''a'', reading ''2024-01-01T10:01:00Z'' ''b'']
   \<and> compileMonitorData insertionSortLessFunc parseRFC3339 formatRFC3339 (\<lambda>input. None)
       [reading ''2024-01-01T10:01:00Z'' ''a'', reading ''2024-01-01T10:01:00Z'' ''b'']
     = Inr [Archived
             \<lparr>Bucket = ''lumi-monitor-data'',
              Key = ''org1/m1/2024-01-01T10:00:00Z-data.json'',
              Body = JObject
                [(''monitorId'', JString ''m1''), (''orgId'', JString ''org1''),
                 (''startTime'', JString ''2024-01-01T10:00:00Z''),
                 (''entries'', JArray
                    [JObject [(''timestamp'', JString ''2024-01-01T10:01:00Z''),
                              (''monitorId'', JPayload ''a'')],
                     JObject [(''timestamp'', JString ''2024-01-01T10:01:00Z''),
                              (''monitorId'', JPayload ''b'')]])]\<rparr>]
   \<and> compileMonitorData insertionSortLessFunc parseRFC3339 formatRFC3339 (\<lambda>input. None)
       [reading ''2024-01-01T10:01:00Z'' ''b'', reading ''2024-01-01T10:01:00Z'' ''a'']
     = Inr [Archived
             \<lparr>Bucket = ''lumi-monitor-data'',
              Key = ''org1/m1/2024-01-01T10:00:00Z-data.json'',
              Body = JObject
                [(''monitorId'', JString ''m1''), (''orgId'', JString ''org1''),
                 (''startTime'', JString ''2024-01-01T10:00:00Z''),
                 (''entries'', JArray
                    [JObject [(''timestamp'', JString ''2024-01-01T10:01:00Z''),
                              (''monitorId'', JPayload ''b'')],
                     JObject [(''timestamp'', JString ''2024-01-01T10:01:00Z''),
                              (''monitorId'', JPayload ''a'')]])]\<rparr>]"
proof (intro conjI)
  show "mset [reading ''2024-01-01T10:01:00Z'' ''b'', reading ''2024-01-01T10:01:00Z'' ''a'']
     = mset [reading ''2024-01-01T10:01:00Z'' ''a'', reading ''2024-01-01T10:01:00Z'' ''b'']"
    by (simp add: add_mset_commute)
qed code_simp+

text \<open>
  C5, amended. Whatever \<open>sort.Slice\<close> does within its promise, the records of every slot
  ascend by the instant of their timestamp; and when no two records of the input have
  the same instant, every permutation of the input makes \<open>compileMonitorData\<close> do the
  same. The order of records with equal instants is left to \<open>sort.Slice\<close>.
\<close>

theorem entries_ascend_and_distinct_timestamps_order_free:
  assumes "sortsByTimestamp sortSlice Parse"
  shows "(\<forall>slots. fileSlots Parse (sortSlice (timestampLess Parse) dataArray) = Inr slots
            \<longrightarrow> (\<forall>(splitDataArray, slotStartTime) \<in> set slots.
                   sorted (map (instant Parse) splitDataArray)))
         \<and> (distinct (map (instant Parse) dataArray) \<and> mset permuted = mset dataArray
            \<longrightarrow> compileMonitorData sortSlice Parse Format client permuted
                = compileMonitorData sortSlice Parse Format client dataArray)"
proof (intro conjI allI impI)
  fix slots
  assume slots: "fileSlots Parse (sortSlice (timestampLess Parse) dataArray) = Inr slots"
  have "sorted (map (instant Parse) (sortSlice (timestampLess Parse) dataArray))"
    using assms by (simp add: sortsByTimestamp_def)
  then show "\<forall>(splitDataArray, slotStartTime) \<in> set slots.
               sorted (map (instant Parse) splitDataArray)"
    using fileSlots_sorted [OF _ slots] by blast
next
  assume "distinct (map (instant Parse) dataArray) \<and> mset permuted = mset dataArray"
  then have "sortSlice (timestampLess Parse) permuted = sortSlice (timestampLess Parse) dataArray"
    using sortSlice_permutation [OF assms] by blast
  then show "compileMonitorData sortSlice Parse Format client permuted
             = compileMonitorData sortSlice Parse Format client dataArray"
    by (simp add: compileMonitorData_def)
qed

theorem entries_ascend_and_distinct_timestamps_order_free_witness:
  "sortsByTimestamp insertionSortLessFunc parseRFC3339
   \<and> distinct (map (instant parseRFC3339)
        [reading ''2024-01-01T10:02:00Z'' ''a'', reading ''2024-01-01T10:07:00Z'' ''c'',
         reading ''2024-01-01T10:03:00Z'' ''b''])
   \<and> mset [reading ''2024-01-01T10:07:00Z'' ''c'', reading ''2024-01-01T10:03:00Z'' ''b'',
            reading ''2024-01-01T10:02:00Z'' ''a'']
     = mset [reading ''2024-01-01T10:02:00Z'' ''a'', reading ''2024-01-01T10:07:00Z'' ''c'',
             reading ''2024-01-01T10:03:00Z'' ''b'']
   \<and> slotsText (fileSlots parseRFC3339 (insertionSortLessFunc (timestampLess parseRFC3339)
        [reading ''2024-01-01T10:02:00Z'' ''a'', reading ''2024-01-01T10:07:00Z'' ''c'',
         reading ''2024-01-01T10:03:00Z'' ''b'']))
     = Inr [([''2024-01-01T10:02:00Z'', ''2024-01-01T10:03:00Z''], ''2024-01-01T10:00:00Z''),
            ([''2024-01-01T10:07:00Z''], ''2024-01-01T10:05:00Z'')]
   \<and> compileMonitorData insertionSortLessFunc parseRFC3339 formatRFC3339 (\<lambda>input. None)
        [reading ''2024-01-01T10:07:00Z'' ''c'', reading ''2024-01-01T10:03:00Z'' ''b'',
         reading ''2024-01-01T10:02:00Z'' ''a'']
     = compileMonitorData insertionSortLessFunc parseRFC3339 formatRFC3339 (\<lambda>input. None)
        [reading ''2024-01-01T10:02:00Z'' ''a'', reading ''2024-01-01T10:07:00Z'' ''c'',
         reading ''2024-01-01T10:03:00Z'' ''b'']"
proof -
  let ?dataArray = "[reading ''2024-01-01T10:02:00Z'' ''a'', reading ''2024-01-01T10:07:00Z'' ''c'',
                     reading ''2024-01-01T10:03:00Z'' ''b'']"
  let ?permuted = "[reading ''2024-01-01T10:07:00Z'' ''c'', reading ''2024-01-01T10:03:00Z'' ''b'',
                    reading ''2024-01-01T10:02:00Z'' ''a'']"
  have sorts: "sortsByTimestamp insertionSortLessFunc parseRFC3339"
    by (rule insertionSortLessFunc_sorts)
  have apart: "distinct (map (instant parseRFC3339) ?dataArray)"
    by code_simp
  have same: "mset ?permuted = mset ?dataArray"
    by (simp add: add_mset_commute)
  have slots: "slotsText (fileSlots parseRFC3339
                 (insertionSortLessFunc (timestampLess parseRFC3339) ?dataArray))
     = Inr [([''2024-01-01T10:02:00Z'', ''2024-01-01T10:03:00Z''], ''2024-01-01T10:00:00Z''),
            ([''2024-01-01T10:07:00Z''], ''2024-01-01T10:05:00Z'')]"
    by code_simp
  from entries_ascend_and_distinct_timestamps_order_free
         [OF sorts, of ?dataArray ?permuted formatRFC3339 "\<lambda>input. None"] apart same
  have "compileMonitorData insertionSortLessFunc parseRFC3339 formatRFC3339 (\<lambda>input. None)
          ?permuted
        = compileMonitorData insertionSortLessFunc parseRFC3339 formatRFC3339 (\<lambda>input. None)
          ?dataArray"
    by blast
  with sorts apart same slots show ?thesis
    by blast
qed

end
